theory Spec2Isabelle
  imports Complex_Main "HOL-Library.AList"
begin

section \<open>Python library functions used by both programs\<close>

text \<open>
  The repository holds two independent scripts: \<^verbatim>\<open>auto_update.py\<close> (two update watchers,
  called Variant A and Variant B below, concatenated in one file) and
  \<^verbatim>\<open>trucking_log.py\<close> (the trip and expense logger). Both are embedded as pure functions
  over an explicit file system. Exceptions are values of \<open>py_error\<close>; a function that can
  raise returns \<open>py_error + 'a\<close> with \<open>Inl\<close> for the exception.
\<close>

datatype py_error =
  FileNotFoundError | ValueError | TypeError | EOFError | UnicodeDecodeError | CsvError

subsection \<open>Strings and paths\<close>

definition endswith :: "string \<Rightarrow> string \<Rightarrow> bool" where
  "endswith s suf = (length suf \<le> length s \<and> drop (length s - length suf) s = suf)"

text \<open>\<^verbatim>\<open>os.path.join\<close> of posixpath, for two components.\<close>

definition os_path_join :: "string \<Rightarrow> string \<Rightarrow> string" where
  "os_path_join a b =
     (if take 1 b = ''/'' then b
      else if a = [] \<or> endswith a ''/'' then a @ b
      else a @ ''/'' @ b)"

definition os_path_basename :: "string \<Rightarrow> string" where
  "os_path_basename p = rev (takeWhile (\<lambda>c. c \<noteq> CHR ''/'') (rev p))"

subsection \<open>The file system\<close>

text \<open>
  A file system is an association list from the path of a regular file, relative to the
  working directory, to its content. The order of the list stands for the arbitrary order
  in which \<^verbatim>\<open>os.listdir\<close> reports names. The paths of the scripts carry at most one leading
  \<^verbatim>\<open>./\<close>, which \<open>normpath\<close> removes, so that \<^verbatim>\<open>./Road_Hawk.py\<close> and \<^verbatim>\<open>Road_Hawk.py\<close> name the
  same file. Directories are not entries: the folders the scripts create at start-up
  (\<^verbatim>\<open>backups\<close>, \<^verbatim>\<open>archive\<close>) are taken to exist, and \<open>os_listdir\<close> reports regular files only.
\<close>

type_synonym filesys = "(string \<times> string) list"

definition normpath :: "string \<Rightarrow> string" where
  "normpath p = (if take 2 p = ''./'' then drop 2 p else p)"

definition os_path_exists :: "filesys \<Rightarrow> string \<Rightarrow> bool" where
  "os_path_exists fs p = (map_of fs (normpath p) \<noteq> None)"

definition dir_prefix :: "string \<Rightarrow> string" where
  "dir_prefix d = (let n = normpath d in if n = [] \<or> endswith n ''/'' then n else n @ ''/'')"

definition in_dir :: "string \<Rightarrow> string \<Rightarrow> bool" where
  "in_dir pre p =
     (take (length pre) p = pre \<and> drop (length pre) p \<noteq> [] \<and>
      CHR ''/'' \<notin> set (drop (length pre) p))"

definition os_listdir :: "filesys \<Rightarrow> string \<Rightarrow> string list" where
  "os_listdir fs d =
     (let pre = dir_prefix d
      in map (drop (length pre)) (filter (in_dir pre) (map fst fs)))"

text \<open>
  Reading in text mode translates \<^verbatim>\<open>\r\n\<close> and a lone \<^verbatim>\<open>\r\<close> to \<^verbatim>\<open>\n\<close> (universal newlines).
  Contents are taken to be valid UTF-8, so decoding does not fail.
\<close>

fun universal_newlines :: "string \<Rightarrow> string" where
  "universal_newlines [] = []"
| "universal_newlines [c] = (if c = CHR 0x0D then [CHR 0x0A] else [c])"
| "universal_newlines (c # d # ds) =
     (if c = CHR 0x0D \<and> d = CHR 0x0A then CHR 0x0A # universal_newlines ds
      else if c = CHR 0x0D then CHR 0x0A # universal_newlines (d # ds)
      else c # universal_newlines (d # ds))"

definition read_text :: "filesys \<Rightarrow> string \<Rightarrow> py_error + string" where
  "read_text fs p =
     (case map_of fs (normpath p) of
        None \<Rightarrow> Inl FileNotFoundError
      | Some c \<Rightarrow> Inr (universal_newlines c))"

text \<open>\<^verbatim>\<open>open(p, "w").write(c)\<close>: creates or truncates the file.\<close>

definition write_text :: "filesys \<Rightarrow> string \<Rightarrow> string \<Rightarrow> filesys" where
  "write_text fs p c = AList.update (normpath p) c fs"

definition os_remove :: "filesys \<Rightarrow> string \<Rightarrow> py_error + filesys" where
  "os_remove fs p =
     (if os_path_exists fs p then Inr (AList.delete (normpath p) fs)
      else Inl FileNotFoundError)"

text \<open>\<^verbatim>\<open>shutil.copy(src, dst)\<close> and \<^verbatim>\<open>shutil.move(src, dst)\<close> with \<open>dst\<close> a file path.\<close>

definition shutil_copy :: "filesys \<Rightarrow> string \<Rightarrow> string \<Rightarrow> py_error + filesys" where
  "shutil_copy fs src dst =
     (case map_of fs (normpath src) of
        None \<Rightarrow> Inl FileNotFoundError
      | Some c \<Rightarrow> Inr (AList.update (normpath dst) c fs))"

definition shutil_move :: "filesys \<Rightarrow> string \<Rightarrow> string \<Rightarrow> py_error + filesys" where
  "shutil_move fs src dst =
     (case map_of fs (normpath src) of
        None \<Rightarrow> Inl FileNotFoundError
      | Some c \<Rightarrow> Inr (AList.update (normpath dst) c (AList.delete (normpath src) fs)))"

subsection \<open>Lines of a text\<close>

text \<open>\<^verbatim>\<open>file.readlines()\<close>: the text cut after every \<^verbatim>\<open>\n\<close>.\<close>

fun readlines :: "string \<Rightarrow> string list" where
  "readlines [] = []"
| "readlines (c # cs) =
     (if c = CHR 0x0A then [c] # readlines cs
      else (case readlines cs of [] \<Rightarrow> [[c]] | l # ls \<Rightarrow> (c # l) # ls))"

text \<open>
  \<^verbatim>\<open>str.splitlines(keepends=True)\<close> cuts at more boundaries than \<open>readlines\<close>: line feed,
  carriage return (with a following line feed as one boundary), vertical tab, form feed,
  the separators 0x1C to 0x1E and next-line 0x85. The boundaries U+2028 and U+2029 are
  outside the 8-bit characters of the model.
\<close>

definition is_linebreak :: "char \<Rightarrow> bool" where
  "is_linebreak c =
     (c \<in> {CHR 0x0A, CHR 0x0D, CHR 0x0B, CHR 0x0C, CHR 0x1C, CHR 0x1D, CHR 0x1E, CHR 0x85})"

fun splitlines_keepends :: "string \<Rightarrow> string list" where
  "splitlines_keepends [] = []"
| "splitlines_keepends [c] = [[c]]"
| "splitlines_keepends (c # d # ds) =
     (if c = CHR 0x0D \<and> d = CHR 0x0A then [c, d] # splitlines_keepends ds
      else if is_linebreak c then [c] # splitlines_keepends (d # ds)
      else (case splitlines_keepends (d # ds) of
              [] \<Rightarrow> [[c]]
            | l # ls \<Rightarrow> (c # l) # ls))"

subsection \<open>The clock\<close>

text \<open>
  \<^verbatim>\<open>time.strftime("%Y%m%d-%H%M%S")\<close> formats the local time read at the call. The reading is
  a parameter of the functions that take a backup; years have four digits.
\<close>

record struct_time =
  tm_year :: nat
  tm_mon :: nat
  tm_mday :: nat
  tm_hour :: nat
  tm_min :: nat
  tm_sec :: nat

definition digit_char :: "nat \<Rightarrow> char" where
  "digit_char d = char_of (48 + d)"

definition pad2 :: "nat \<Rightarrow> string" where
  "pad2 n = [digit_char (n div 10 mod 10), digit_char (n mod 10)]"

definition pad4 :: "nat \<Rightarrow> string" where
  "pad4 n = pad2 (n div 100) @ pad2 n"

definition strftime_YmdHMS :: "struct_time \<Rightarrow> string" where
  "strftime_YmdHMS t =
     pad4 (tm_year t) @ pad2 (tm_mon t) @ pad2 (tm_mday t) @ ''-'' @
     pad2 (tm_hour t) @ pad2 (tm_min t) @ pad2 (tm_sec t)"

section \<open>Update watcher, Variant A (lines 1 to 149 of auto\_update.py)\<close>

definition WATCH_FOLDER :: string where "WATCH_FOLDER = ''./''"
definition BACKUP_FOLDER_A :: string where "BACKUP_FOLDER_A = ''./backups/''"
definition MAIN_FILE :: string where "MAIN_FILE = ''Road_Hawk.py''"

definition backup_path_A :: "struct_time \<Rightarrow> string" where
  "backup_path_A t = os_path_join BACKUP_FOLDER_A (''Road_Hawk_'' @ strftime_YmdHMS t @ ''.bak'')"

text \<open>\<open>backup_current_version\<close> copies the main file without testing that it exists.\<close>

definition backup_current_version :: "struct_time \<Rightarrow> filesys \<Rightarrow> py_error + filesys" where
  "backup_current_version t fs = shutil_copy fs MAIN_FILE (backup_path_A t)"

text \<open>
  \<open>detect_changes\<close> returns \<^verbatim>\<open>True\<close> when the main file is absent, the list of diff lines
  when it is not empty, and \<^verbatim>\<open>None\<close> otherwise. Only the truth value of the result is used.
  \<^verbatim>\<open>difflib.unified_diff\<close> is library code: it yields no line exactly when the two lists of
  lines are equal, which is all the model keeps of it.
\<close>

datatype changes = Fresh_Install | Diff_Lines | No_Changes

definition unified_diff_is_empty :: "string list \<Rightarrow> string list \<Rightarrow> bool" where
  "unified_diff_is_empty a b = (a = b)"

definition detect_changes :: "filesys \<Rightarrow> string \<Rightarrow> py_error + changes" where
  "detect_changes fs new_code =
     (if \<not> os_path_exists fs MAIN_FILE then Inr Fresh_Install
      else (case read_text fs MAIN_FILE of
              Inl e \<Rightarrow> Inl e
            | Inr old_text \<Rightarrow>
                (let old_code = readlines old_text
                 in if unified_diff_is_empty old_code (splitlines_keepends new_code)
                    then Inr No_Changes else Inr Diff_Lines)))"

definition truthy :: "changes \<Rightarrow> bool" where
  "truthy ch = (ch \<noteq> No_Changes)"

definition update_code :: "struct_time \<Rightarrow> filesys \<Rightarrow> string \<Rightarrow> py_error + filesys" where
  "update_code t fs new_code =
     (case detect_changes fs new_code of
        Inl e \<Rightarrow> Inl e
      | Inr ch \<Rightarrow>
          if truthy ch then
            (case backup_current_version t fs of
               Inl e \<Rightarrow> Inl e
             | Inr fs1 \<Rightarrow> Inr (write_text fs1 MAIN_FILE new_code))
          else Inr fs)"

text \<open>
  The body of the \<^verbatim>\<open>for\<close> loop of \<open>monitor_folder\<close> for one name of the listing. No
  exception is caught anywhere in Variant A: the first one ends the program.
\<close>

definition process_file_A :: "struct_time \<Rightarrow> filesys \<Rightarrow> string \<Rightarrow> py_error + filesys" where
  "process_file_A t fs file =
     (if endswith file ''.update.py'' then
        (let update_path = os_path_join WATCH_FOLDER file
         in case read_text fs update_path of
              Inl e \<Rightarrow> Inl e
            | Inr new_code \<Rightarrow>
                (case update_code t fs new_code of
                   Inl e \<Rightarrow> Inl e
                 | Inr fs1 \<Rightarrow> os_remove fs1 update_path))
      else Inr fs)"

text \<open>
  One pass of the \<^verbatim>\<open>while True\<close> loop after its sleep: the listing is taken once, then
  every name is processed in turn. \<open>clock file\<close> is the time read while \<open>file\<close> is processed.
  The loop itself never returns; between two passes the environment may change the folder.
\<close>

fun for_files_A :: "(string \<Rightarrow> struct_time) \<Rightarrow> string list \<Rightarrow> filesys \<Rightarrow> py_error + filesys" where
  "for_files_A clock [] fs = Inr fs"
| "for_files_A clock (file # files) fs =
     (case process_file_A (clock file) fs file of
        Inl e \<Rightarrow> Inl e
      | Inr fs1 \<Rightarrow> for_files_A clock files fs1)"

definition monitor_folder_A :: "(string \<Rightarrow> struct_time) \<Rightarrow> filesys \<Rightarrow> py_error + filesys" where
  "monitor_folder_A clock fs = for_files_A clock (os_listdir fs WATCH_FOLDER) fs"

section \<open>Update watcher, Variant B (lines 150 to 262 of auto\_update.py)\<close>

definition BACKUP_FOLDER_B :: string where "BACKUP_FOLDER_B = ''backups''"
definition ARCHIVE_FOLDER :: string where "ARCHIVE_FOLDER = ''archive''"
definition MAIN_SCRIPT :: string where "MAIN_SCRIPT = ''Road_Hawk.py''"

definition backup_path_B :: "struct_time \<Rightarrow> string" where
  "backup_path_B t =
     os_path_join ARCHIVE_FOLDER (MAIN_SCRIPT @ ''_'' @ strftime_YmdHMS t @ ''.bak'')"

definition apply_python_update :: "struct_time \<Rightarrow> filesys \<Rightarrow> string \<Rightarrow> py_error + filesys" where
  "apply_python_update t fs update_path =
     (let backup_path = backup_path_B t
      in case (if os_path_exists fs MAIN_SCRIPT
               then shutil_copy fs MAIN_SCRIPT backup_path else Inr fs) of
           Inl e \<Rightarrow> Inl e
         | Inr fs1 \<Rightarrow> shutil_move fs1 update_path MAIN_SCRIPT)"

definition archive_file :: "filesys \<Rightarrow> string \<Rightarrow> py_error + filesys" where
  "archive_file fs file_path =
     (let new_location = os_path_join ARCHIVE_FOLDER (os_path_basename file_path)
      in shutil_move fs file_path new_location)"

definition process_file_B :: "struct_time \<Rightarrow> filesys \<Rightarrow> string \<Rightarrow> py_error + filesys" where
  "process_file_B t fs file =
     (let update_path = os_path_join BACKUP_FOLDER_B file
      in if endswith file ''.py'' then apply_python_update t fs update_path
         else if endswith file ''.txt'' \<or> endswith file ''.docx'' then archive_file fs update_path
         else Inr fs)"

text \<open>One pass of the \<^verbatim>\<open>while True\<close> loop of Variant B, before its sleep.\<close>

fun for_files_B :: "(string \<Rightarrow> struct_time) \<Rightarrow> string list \<Rightarrow> filesys \<Rightarrow> py_error + filesys" where
  "for_files_B clock [] fs = Inr fs"
| "for_files_B clock (file # files) fs =
     (case process_file_B (clock file) fs file of
        Inl e \<Rightarrow> Inl e
      | Inr fs1 \<Rightarrow> for_files_B clock files fs1)"

definition monitor_folder_B :: "(string \<Rightarrow> struct_time) \<Rightarrow> filesys \<Rightarrow> py_error + filesys" where
  "monitor_folder_B clock fs = for_files_B clock (os_listdir fs BACKUP_FOLDER_B) fs"

section \<open>Trip and expense logger (trucking\_log.py)\<close>

subsection \<open>Numbers and their text\<close>

text \<open>
  The logger computes with Python floats. They are modelled as rationals with exact
  arithmetic: rounding of binary floating point, infinities and NaN are outside the model.
\<close>

definition PAY_RATE_PER_MILE :: rat where "PAY_RATE_PER_MILE = 1 / 2"
definition OWNER_OPERATOR_PERCENTAGE :: rat where "OWNER_OPERATOR_PERCENTAGE = 4 / 5"

definition is_space :: "char \<Rightarrow> bool" where
  "is_space c =
     (c \<in> {CHR 0x20, CHR 0x09, CHR 0x0A, CHR 0x0B, CHR 0x0C, CHR 0x0D,
            CHR 0x1C, CHR 0x1D, CHR 0x1E, CHR 0x1F})"

definition strip :: "string \<Rightarrow> string" where
  "strip s = rev (dropWhile is_space (rev (dropWhile is_space s)))"

definition lower_char :: "char \<Rightarrow> char" where
  "lower_char c =
     (if (65::nat) \<le> of_char c \<and> of_char c \<le> (90::nat) then char_of (of_char c + (32::nat)) else c)"

definition lower :: "string \<Rightarrow> string" where
  "lower s = map lower_char s"

definition is_digit :: "char \<Rightarrow> bool" where
  "is_digit c = ((48::nat) \<le> of_char c \<and> of_char c \<le> (57::nat))"

definition digit_val :: "char \<Rightarrow> nat" where
  "digit_val c = of_char c - 48"

definition nat_of_digits :: "string \<Rightarrow> nat" where
  "nat_of_digits ds = foldl (\<lambda>n c. 10 * n + digit_val c) 0 ds"

text \<open>
  \<^verbatim>\<open>float(s)\<close> on the decimal numerals: surrounding white space is dropped, then an optional
  sign, digits, and an optional point with digits; at least one digit is required. Any
  other text raises \<^verbatim>\<open>ValueError\<close>. Python also accepts exponents, underscores between
  digits, \<^verbatim>\<open>inf\<close> and \<^verbatim>\<open>nan\<close>; these spellings are outside the model and no theorem below
  rests on their being refused.
\<close>

definition split_sign :: "string \<Rightarrow> bool \<times> string" where
  "split_sign t =
     (case t of
        [] \<Rightarrow> (False, t)
      | c # r \<Rightarrow> if c = CHR ''-'' then (True, r) else if c = CHR ''+'' then (False, r) else (False, t))"

definition float_of_string :: "string \<Rightarrow> py_error + rat" where
  "float_of_string s =
     (let (neg, u) = split_sign (strip s);
          ip = takeWhile is_digit u;
          rest = dropWhile is_digit u
      in case rest of
           [] \<Rightarrow> if ip = [] then Inl ValueError
                 else Inr ((if neg then - 1 else 1) * of_nat (nat_of_digits ip))
         | c # fp \<Rightarrow>
             if c = CHR ''.'' \<and> list_all is_digit fp \<and> \<not> (ip = [] \<and> fp = [])
             then Inr ((if neg then - 1 else 1) *
                       (of_nat (nat_of_digits ip) + of_nat (nat_of_digits fp) / 10 ^ length fp))
             else Inl ValueError)"

text \<open>
  The format \<^verbatim>\<open>f"{x:.2f}"\<close>: two decimals, rounded half to even, with a minus sign for a
  negative value.
\<close>

definition round_half_even :: "rat \<Rightarrow> int" where
  "round_half_even x =
     (let f = \<lfloor>x\<rfloor>; d = x - of_int f
      in if d < 1 / 2 then f else if 1 / 2 < d then f + 1 else if even f then f else f + 1)"

fun digits_of_nat :: "nat \<Rightarrow> string" where
  "digits_of_nat n =
     (if n < 10 then [digit_char n] else digits_of_nat (n div 10) @ [digit_char (n mod 10)])"

definition format_2f :: "rat \<Rightarrow> string" where
  "format_2f x =
     (let c = nat (round_half_even (\<bar>x\<bar> * 100))
      in (if x < 0 then ''-'' else []) @ digits_of_nat (c div 100) @ ''.'' @ pad2 (c mod 100))"

subsection \<open>The datetime library\<close>

text \<open>
  \<^verbatim>\<open>datetime\<close> and \<^verbatim>\<open>zoneinfo\<close> are library code. The logger uses five operations of them,
  taken as a parameter: \<open>fromisoformat\<close> (\<open>None\<close> when it raises), the attachment of the
  default time zone, \<open>isoformat\<close>, the hours from one datetime to another and the ISO
  text of the date.
\<close>

record 'd datetime_lib =
  fromisoformat :: "string \<Rightarrow> 'd option"
  replace_tzinfo :: "'d \<Rightarrow> 'd"
  isoformat :: "'d \<Rightarrow> string"
  hours_between :: "'d \<Rightarrow> 'd \<Rightarrow> rat"
  date_isoformat :: "'d \<Rightarrow> string"

subsection \<open>The csv module\<close>

text \<open>
  \<^verbatim>\<open>csv.writer\<close> and \<^verbatim>\<open>csv.reader\<close> with the dialect \<^verbatim>\<open>excel\<close>, which the logger uses: the
  delimiter is the comma, the quote character is the double quote, a quote inside a quoted
  field is doubled, only fields that need it are quoted, and a written line ends with
  carriage return and line feed. All cells that the logger writes are strings.

  \<open>writerow\<close> gives the text of one row: a field is quoted when it holds a comma, a quote, a
  carriage return or a line feed; a row of one empty field is written as two quotes.
\<close>

definition needs_quotes :: "string \<Rightarrow> bool" where
  "needs_quotes f =
     list_ex (\<lambda>c. c = CHR '','' \<or> c = CHR 0x22 \<or> c = CHR 0x0D \<or> c = CHR 0x0A) f"

definition double_quotes :: "string \<Rightarrow> string" where
  "double_quotes f = concat (map (\<lambda>c. if c = CHR 0x22 then [c, c] else [c]) f)"

definition quote_field :: "string \<Rightarrow> string" where
  "quote_field f = (if needs_quotes f then [CHR 0x22] @ double_quotes f @ [CHR 0x22] else f)"

fun join_fields :: "string list \<Rightarrow> string" where
  "join_fields [] = []"
| "join_fields [f] = f"
| "join_fields (f # g # fs) = f @ [CHR '',''] @ join_fields (g # fs)"

definition writerow :: "string list \<Rightarrow> string" where
  "writerow row =
     (if row = [[]] then [CHR 0x22, CHR 0x22] else join_fields (map quote_field row)) @
     [CHR 0x0D, CHR 0x0A]"

definition writerows :: "string list list \<Rightarrow> string" where
  "writerows rows = concat (map writerow rows)"

text \<open>
  The reader is the state machine of the module, in its default, non-strict mode. Its
  state is the parser state, the fields of the record so far and the field so far.
  \<open>parse_process_char\<close> takes one character, or \<open>None\<close> at the end of a line. A field that
  would grow beyond the field size limit raises \<^verbatim>\<open>csv.Error\<close>. The character NUL is an
  ordinary character, as it is from Python 3.11 on.
\<close>

datatype parser_state =
  START_RECORD | START_FIELD | IN_FIELD | IN_QUOTED_FIELD | QUOTE_IN_QUOTED_FIELD | EAT_CRNL

type_synonym parser = "parser_state \<times> string list \<times> string"

definition field_limit :: nat where
  "field_limit = 131072"

definition parse_add_char :: "parser_state \<Rightarrow> string list \<Rightarrow> string \<Rightarrow> char \<Rightarrow> py_error + parser" where
  "parse_add_char st fs f c =
     (if field_limit \<le> length f then Inl CsvError else Inr (st, fs, f @ [c]))"

definition start_field :: "string list \<Rightarrow> string \<Rightarrow> char \<Rightarrow> py_error + parser" where
  "start_field fs f c =
     (if c = CHR 0x0A \<or> c = CHR 0x0D then Inr (EAT_CRNL, fs @ [f], [])
      else if c = CHR 0x22 then Inr (IN_QUOTED_FIELD, fs, f)
      else if c = CHR '','' then Inr (START_FIELD, fs @ [f], [])
      else parse_add_char IN_FIELD fs f c)"

fun parse_process_char :: "parser \<Rightarrow> char option \<Rightarrow> py_error + parser" where
  "parse_process_char (START_RECORD, fs, f) None = Inr (START_RECORD, fs, f)"
| "parse_process_char (START_RECORD, fs, f) (Some c) =
     (if c = CHR 0x0A \<or> c = CHR 0x0D then Inr (EAT_CRNL, fs, f) else start_field fs f c)"
| "parse_process_char (START_FIELD, fs, f) None = Inr (START_RECORD, fs @ [f], [])"
| "parse_process_char (START_FIELD, fs, f) (Some c) = start_field fs f c"
| "parse_process_char (IN_FIELD, fs, f) None = Inr (START_RECORD, fs @ [f], [])"
| "parse_process_char (IN_FIELD, fs, f) (Some c) =
     (if c = CHR 0x0A \<or> c = CHR 0x0D then Inr (EAT_CRNL, fs @ [f], [])
      else if c = CHR '','' then Inr (START_FIELD, fs @ [f], [])
      else parse_add_char IN_FIELD fs f c)"
| "parse_process_char (IN_QUOTED_FIELD, fs, f) None = Inr (IN_QUOTED_FIELD, fs, f)"
| "parse_process_char (IN_QUOTED_FIELD, fs, f) (Some c) =
     (if c = CHR 0x22 then Inr (QUOTE_IN_QUOTED_FIELD, fs, f)
      else parse_add_char IN_QUOTED_FIELD fs f c)"
| "parse_process_char (QUOTE_IN_QUOTED_FIELD, fs, f) None = Inr (START_RECORD, fs @ [f], [])"
| "parse_process_char (QUOTE_IN_QUOTED_FIELD, fs, f) (Some c) =
     (if c = CHR 0x22 then parse_add_char IN_QUOTED_FIELD fs f c
      else if c = CHR '','' then Inr (START_FIELD, fs @ [f], [])
      else if c = CHR 0x0A \<or> c = CHR 0x0D then Inr (EAT_CRNL, fs @ [f], [])
      else parse_add_char IN_FIELD fs f c)"
| "parse_process_char (EAT_CRNL, fs, f) None = Inr (START_RECORD, fs, f)"
| "parse_process_char (EAT_CRNL, fs, f) (Some c) =
     (if c = CHR 0x0A \<or> c = CHR 0x0D then Inr (EAT_CRNL, fs, f) else Inl CsvError)"

text \<open>
  The files are opened with \<^verbatim>\<open>newline=''\<close>: a line of the file ends after a line feed, after
  a carriage return that no line feed follows, and at the end of the file, and it keeps its
  line end. The reader takes the characters of a line and then the end of the line; when
  the parser is back at the start of a record, the record is complete. At the end of the
  file a record that was begun is given when its last field is not empty or a quoted
  field is still open.
\<close>

definition ends_line :: "char \<Rightarrow> string \<Rightarrow> bool" where
  "ends_line c cs = (cs = [] \<or> c = CHR 0x0A \<or> (c = CHR 0x0D \<and> take 1 cs \<noteq> [CHR 0x0A]))"

fun read_chars :: "string \<Rightarrow> parser \<Rightarrow> string list list \<Rightarrow> py_error + string list list" where
  "read_chars [] (st, fs, f) rows =
     Inr (if f \<noteq> [] \<or> st = IN_QUOTED_FIELD then rows @ [fs @ [f]] else rows)"
| "read_chars (c # cs) p rows =
     (case parse_process_char p (Some c) of
        Inl e \<Rightarrow> Inl e
      | Inr p1 \<Rightarrow>
          if ends_line c cs then
            (case parse_process_char p1 None of
               Inl e \<Rightarrow> Inl e
             | Inr (st, fs, f) \<Rightarrow>
                 if st = START_RECORD then read_chars cs (START_RECORD, [], []) (rows @ [fs])
                 else read_chars cs (st, fs, f) rows)
          else read_chars cs p1 rows)"

definition csv_reader :: "string \<Rightarrow> py_error + string list list" where
  "csv_reader content = read_chars content (START_RECORD, [], []) []"

text \<open>
  A file opened for reading is decoded with the codec of the locale, which is a parameter:
  \<open>decodes t\<close> tells whether the codec decodes the content \<open>t\<close>; the characters of a content
  that it decodes are the characters of the text read. A content that it does not decode
  raises \<^verbatim>\<open>UnicodeDecodeError\<close> while the rows are read.
\<close>

definition read_csv :: "(string \<Rightarrow> bool) \<Rightarrow> string \<Rightarrow> py_error + string list list" where
  "read_csv decodes t = (if decodes t then csv_reader t else Inl UnicodeDecodeError)"

subsection \<open>Console, files and the exception monad\<close>

text \<open>
  The state of the logger is the lines still to be read from standard input, the content
  of the files by path and what has been printed and logged so far. Prompts are not
  recorded, and the text of a caught exception is not part of a log message. Opening a
  file and writing to it succeed: the handlers for a failing file system are not reached.
\<close>

datatype level = INFO | WARNING | ERROR

datatype event = Print string | Logging level string

record logger =
  stdin :: "string list"
  files :: "string \<rightharpoonup> string"
  stdout :: "event list"

type_synonym 'a io = "logger \<Rightarrow> (py_error + 'a) \<times> logger"

definition io_return :: "'a \<Rightarrow> 'a io" where
  "io_return x w = (Inr x, w)"

definition io_raise :: "py_error \<Rightarrow> 'a io" where
  "io_raise e w = (Inl e, w)"

definition io_bind :: "'a io \<Rightarrow> ('a \<Rightarrow> 'b io) \<Rightarrow> 'b io" where
  "io_bind m f w = (case m w of (Inl e, w1) \<Rightarrow> (Inl e, w1) | (Inr x, w1) \<Rightarrow> f x w1)"

definition io_then :: "unit io \<Rightarrow> 'b io \<Rightarrow> 'b io" where
  "io_then m k = io_bind m (\<lambda>_. k)"

definition try_except :: "'a io \<Rightarrow> (py_error \<Rightarrow> 'a io) \<Rightarrow> 'a io" where
  "try_except m handler w = (case m w of (Inl e, w1) \<Rightarrow> handler e w1 | (Inr x, w1) \<Rightarrow> (Inr x, w1))"

definition input_line :: "string io" where
  "input_line w =
     (case stdin w of [] \<Rightarrow> (Inl EOFError, w) | x # xs \<Rightarrow> (Inr x, w\<lparr>stdin := xs\<rparr>))"

definition print :: "string \<Rightarrow> unit io" where
  "print s w = (Inr (), w\<lparr>stdout := stdout w @ [Print s]\<rparr>)"

definition logging :: "level \<Rightarrow> string \<Rightarrow> unit io" where
  "logging l s w = (Inr (), w\<lparr>stdout := stdout w @ [Logging l s]\<rparr>)"

definition py_float :: "string \<Rightarrow> rat io" where
  "py_float s w = (float_of_string s, w)"

subsection \<open>The operations of the logger\<close>

definition calculate_pay :: "string \<Rightarrow> rat \<Rightarrow> rat \<Rightarrow> rat io" where
  "calculate_pay driver_type miles revenue =
     (if driver_type = ''company'' then io_return (miles * PAY_RATE_PER_MILE)
      else if driver_type = ''owner'' then io_return (revenue * OWNER_OPERATOR_PERCENTAGE)
      else io_then
             (logging WARNING (''Unknown driver type '' @ [CHR 0x27] @ driver_type @ [CHR 0x27] @
                               ''. Pay set to 0.''))
             (io_return 0))"

text \<open>
  The file is opened with mode \<^verbatim>\<open>a\<close>: what is written goes after the content that the file
  has, whatever that content is.
\<close>

definition write_to_csv :: "string \<Rightarrow> string list \<Rightarrow> string list \<Rightarrow> unit io" where
  "write_to_csv filename header data_row w =
     (let file_exists = (files w filename \<noteq> None);
          old_content = (case files w filename of None \<Rightarrow> [] | Some t \<Rightarrow> t);
          new_content = old_content @ (if \<not> file_exists then writerow header else []) @
                        writerow data_row
      in (Inr (), w\<lparr>files := (files w)(filename \<mapsto> new_content)\<rparr>))"

definition expenses_header :: "string list" where
  "expenses_header = [''Date'', ''DriverName'', ''Amount'', ''Description'']"

definition log_expense_record :: "string \<Rightarrow> rat \<Rightarrow> string \<Rightarrow> string \<Rightarrow> unit io" where
  "log_expense_record driver_name amount description date_iso =
     (let data_row = [date_iso, driver_name, format_2f amount, description]
      in io_then (write_to_csv ''expenses.csv'' expenses_header data_row)
           (logging INFO (''Expense logged: '' @ driver_name @ '' - $'' @ format_2f amount @
                          '' for '' @ description @ ''.'')))"

definition trips_header :: "string list" where
  "trips_header =
     [''TripID'', ''DriverName'', ''DriverType'', ''StartTime'', ''EndTime'',
      ''DurationHours'', ''Miles'', ''Pay'', ''ExpenseAmount'', ''ExpenseDescription'']"

text \<open>
  A \<^verbatim>\<open>try\<close> block with an \<^verbatim>\<open>except ValueError\<close> clause: the result is \<open>None\<close> when the
  block raised \<^verbatim>\<open>ValueError\<close>; any other exception goes on to the enclosing handler.
\<close>

definition catch_ValueError :: "'a io \<Rightarrow> 'a option io" where
  "catch_ValueError m w =
     (case m w of
        (Inl e, w1) \<Rightarrow> if e = ValueError then (Inr None, w1) else (Inl e, w1)
      | (Inr x, w1) \<Rightarrow> (Inr (Some x), w1))"

definition input_float :: "rat io" where
  "input_float = io_bind input_line (\<lambda>s. py_float (strip s))"

definition trip_expense :: "'d datetime_lib \<Rightarrow> string \<Rightarrow> 'd \<Rightarrow> (rat \<times> string) io" where
  "trip_expense D driver_name start_dt =
     io_bind input_line (\<lambda>s. let add_expense = lower (strip s) in
       if add_expense = ''y'' then
         io_bind (catch_ValueError input_float) (\<lambda>r.
           case r of
             None \<Rightarrow>
               io_then (logging ERROR ''Expense amount must be numeric.'')
              (io_then (print ''Error: Expense amount must be a number. Expense not logged for trip.'')
                       (io_return (0, [])))
           | Some expense_amount \<Rightarrow>
               io_bind input_line (\<lambda>s'. let expense_desc = strip s' in
                 io_then (log_expense_record (if driver_name = [] then ''General'' else driver_name)
                            expense_amount expense_desc (date_isoformat D start_dt))
                         (io_return (expense_amount, expense_desc))))
       else io_return (0, []))"

text \<open>
  \<open>log_trip\<close> in three parts, in the order of the source: \<open>log_trip_body\<close> is the block
  under its outer \<^verbatim>\<open>try\<close>, up to the revenue; \<open>finish_trip\<close> is the rest of that block, from
  the computation of the pay to the write; inside it, \<open>trip_expense\<close> above is the block
  from the question about an expense to the two assignments of \<open>expense_amount\<close> and
  \<open>expense_desc\<close>. An early \<^verbatim>\<open>return\<close> ends the chain of binds.
\<close>

definition finish_trip ::
  "'d datetime_lib \<Rightarrow> string \<Rightarrow> string \<Rightarrow> string \<Rightarrow> 'd \<Rightarrow> 'd \<Rightarrow> rat \<Rightarrow> rat \<Rightarrow> rat \<Rightarrow> unit io" where
  "finish_trip D trip_id driver_name driver_type start_dt end_dt duration_hours miles revenue =
     io_bind (calculate_pay driver_type miles revenue) (\<lambda>pay.
     io_bind (trip_expense D driver_name start_dt) (\<lambda>(expense_amount, expense_desc).
       let data_row =
             [trip_id, driver_name, driver_type,
              isoformat D start_dt, isoformat D end_dt,
              format_2f duration_hours, format_2f miles, format_2f pay,
              format_2f expense_amount, expense_desc]
       in io_then (write_to_csv ''trips.csv'' trips_header data_row)
         (io_then (print (''Trip '' @ trip_id @ '' logged successfully.''))
                  (logging INFO (''Logged trip '' @ trip_id @ '' for driver '' @
                                 driver_name @ ''.'')))))"

definition log_trip_body :: "'d datetime_lib \<Rightarrow> unit io" where
  "log_trip_body D =
     io_bind input_line (\<lambda>s1. let trip_id = strip s1 in
     io_bind input_line (\<lambda>s2. let driver_name = strip s2 in
     io_bind input_line (\<lambda>s3. let driver_type = lower (strip s3) in
     io_bind input_line (\<lambda>s4. let start_time_str = strip s4 in
     io_bind input_line (\<lambda>s5. let end_time_str = strip s5 in
       case (case fromisoformat D start_time_str of
               None \<Rightarrow> None
             | Some a \<Rightarrow> (case fromisoformat D end_time_str of
                            None \<Rightarrow> None
                          | Some b \<Rightarrow> Some (a, b))) of
         None \<Rightarrow>
           io_then (logging ERROR ''Invalid date/time format. Please use YYYY-MM-DD HH:MM. Error: %s'')
                   (print ''Error: Invalid date/time format. Trip not logged.'')
       | Some (start_naive, end_naive) \<Rightarrow>
           (let start_dt = replace_tzinfo D start_naive;
                end_dt = replace_tzinfo D end_naive;
                duration_hours = hours_between D start_dt end_dt
            in io_bind (catch_ValueError input_float) (\<lambda>r1.
                 case r1 of
                   None \<Rightarrow>
                     io_then (logging ERROR ''Miles must be a numeric value.'')
                             (print ''Error: Miles must be a number. Trip not logged.'')
                 | Some miles \<Rightarrow>
                     io_bind (if driver_type = ''owner''
                              then catch_ValueError input_float
                              else io_return (Some 0)) (\<lambda>r2.
                       case r2 of
                         None \<Rightarrow>
                           io_then (logging ERROR ''Revenue must be a numeric value.'')
                                   (print ''Error: Revenue must be a number. Trip not logged.'')
                       | Some revenue \<Rightarrow>
                           finish_trip D trip_id driver_name driver_type start_dt end_dt
                             duration_hours miles revenue))))))))"

definition log_trip :: "'d datetime_lib \<Rightarrow> unit io" where
  "log_trip D =
     try_except (log_trip_body D)
       (\<lambda>e. io_then (logging ERROR ''Unexpected error in log_trip: %s'')
                     (print ''An error occurred while logging the trip. Please check the log for details.''))"

definition log_expense :: "'d datetime_lib \<Rightarrow> unit io" where
  "log_expense D =
     try_except
       (io_bind input_line (\<lambda>s1.
          let driver_name = (if strip s1 = [] then ''General'' else strip s1) in
        io_bind input_float (\<lambda>amount.
        io_bind input_line (\<lambda>s3. let description = strip s3 in
        io_bind input_line (\<lambda>s4. let date_str = strip s4 in
          case fromisoformat D date_str of
            None \<Rightarrow>
              io_then (logging ERROR ''Invalid date format for expense.'')
                      (print ''Error: Invalid date format. Use YYYY-MM-DD.'')
          | Some date \<Rightarrow>
              io_then (log_expense_record driver_name amount description (date_isoformat D date))
                      (print ''Expense logged successfully.''))))))
       (\<lambda>e. if e = ValueError
             then io_then (logging ERROR ''Expense amount must be numeric.'')
                          (print ''Error: Expense amount must be a number. Expense not logged.'')
             else io_then (logging ERROR ''Unexpected error in log_expense: %s'')
                          (print ''An error occurred while logging the expense.''))"

subsection \<open>The export\<close>

text \<open>
  \<^verbatim>\<open>csv.DictReader\<close>: the first row gives the field names; an empty row is skipped; a row is
  the dictionary of its cells by field name, a later column winning over an earlier one
  of the same name, and a field name beyond the end of the row maps to \<^verbatim>\<open>None\<close>. Cells
  beyond the field names go under the key \<^verbatim>\<open>None\<close>, which the export never looks up.
\<close>

datatype pyval = PyNone | PyInt int | PyStr string

definition row_dict :: "string list \<Rightarrow> string list \<Rightarrow> (string \<rightharpoonup> pyval)" where
  "row_dict fieldnames row k =
     (if k \<in> set (drop (length row) fieldnames) then Some PyNone
      else map_option PyStr (map_of (rev (zip fieldnames row)) k))"

definition DictReader :: "string list list \<Rightarrow> (string \<rightharpoonup> pyval) list" where
  "DictReader rows =
     (case rows of
        [] \<Rightarrow> []
      | fieldnames # rest \<Rightarrow> map (row_dict fieldnames) (filter (\<lambda>r. r \<noteq> []) rest))"

definition dict_get :: "(string \<rightharpoonup> pyval) \<Rightarrow> string \<Rightarrow> pyval \<Rightarrow> pyval" where
  "dict_get d k dflt = (case d k of None \<Rightarrow> dflt | Some v \<Rightarrow> v)"

definition py_truth :: "pyval \<Rightarrow> bool" where
  "py_truth v = (case v of PyNone \<Rightarrow> False | PyInt n \<Rightarrow> n \<noteq> 0 | PyStr s \<Rightarrow> s \<noteq> [])"

definition py_or :: "pyval \<Rightarrow> pyval \<Rightarrow> pyval" where
  "py_or a b = (if py_truth a then a else b)"

definition float_of_pyval :: "pyval \<Rightarrow> py_error + rat" where
  "float_of_pyval v =
     (case v of PyNone \<Rightarrow> Inl TypeError | PyInt n \<Rightarrow> Inr (of_int n) | PyStr s \<Rightarrow> float_of_string s)"

text \<open>The expression \<^verbatim>\<open>float(row.get(key, 0) or 0)\<close>.\<close>

definition float_field :: "(string \<rightharpoonup> pyval) \<Rightarrow> string \<Rightarrow> py_error + rat" where
  "float_field row key = float_of_pyval (py_or (dict_get row key (PyInt 0)) (PyInt 0))"

text \<open>
  The loop over the trips. The two additions stand in one \<^verbatim>\<open>try\<close> block: when the pay of a
  row raises \<^verbatim>\<open>ValueError\<close>, its miles have been added already.
\<close>

fun sum_trips :: "(string \<rightharpoonup> pyval) list \<Rightarrow> rat \<times> rat \<Rightarrow> py_error + rat \<times> rat" where
  "sum_trips [] totals = Inr totals"
| "sum_trips (row # rows) (total_miles, total_pay) =
     (case float_field row ''Miles'' of
        Inl e \<Rightarrow> if e = ValueError then sum_trips rows (total_miles, total_pay) else Inl e
      | Inr m \<Rightarrow>
          (case float_field row ''Pay'' of
             Inl e \<Rightarrow> if e = ValueError then sum_trips rows (total_miles + m, total_pay) else Inl e
           | Inr p \<Rightarrow> sum_trips rows (total_miles + m, total_pay + p)))"

fun sum_expenses :: "(string \<rightharpoonup> pyval) list \<Rightarrow> rat \<Rightarrow> py_error + rat" where
  "sum_expenses [] total_expenses = Inr total_expenses"
| "sum_expenses (row # rows) total_expenses =
     (case float_field row ''Amount'' of
        Inl e \<Rightarrow> if e = ValueError then sum_expenses rows total_expenses else Inl e
      | Inr a \<Rightarrow> sum_expenses rows (total_expenses + a))"

text \<open>
  The rows are read inside the outer \<^verbatim>\<open>try\<close> of \<open>export_data\<close> and outside the \<^verbatim>\<open>try\<close> of
  the loop body: an exception of the reader ends the export. No row is added to a total
  that is used after such an exception, so the rows are read first and summed then.
\<close>

definition read_trip_totals :: "(string \<Rightarrow> bool) \<Rightarrow> (rat \<times> rat) io" where
  "read_trip_totals decodes w =
     ((case files w ''trips.csv'' of
         None \<Rightarrow> Inr (0, 0)
       | Some t \<Rightarrow>
           (case read_csv decodes t of
              Inl e \<Rightarrow> Inl e
            | Inr rows \<Rightarrow> sum_trips (DictReader rows) (0, 0))), w)"

definition read_expense_total :: "(string \<Rightarrow> bool) \<Rightarrow> rat io" where
  "read_expense_total decodes w =
     ((case files w ''expenses.csv'' of
         None \<Rightarrow> Inr 0
       | Some t \<Rightarrow>
           (case read_csv decodes t of
              Inl e \<Rightarrow> Inl e
            | Inr rows \<Rightarrow> sum_expenses (DictReader rows) 0)), w)"

definition summary_rows :: "rat \<Rightarrow> rat \<Rightarrow> rat \<Rightarrow> string list list" where
  "summary_rows total_miles total_pay total_expenses =
     [[''Total Miles'', format_2f total_miles],
      [''Total Pay'', ''$'' @ format_2f total_pay],
      [''Total Expenses'', ''$'' @ format_2f total_expenses]]"

text \<open>Opening the summary with mode \<^verbatim>\<open>w\<close> replaces any earlier content.\<close>

definition write_summary :: "string list list \<Rightarrow> unit io" where
  "write_summary rows w =
     (Inr (), w\<lparr>files := (files w)(''exports/summary.csv'' \<mapsto>
                            writerow [''Metric'', ''Amount''] @ writerows rows)\<rparr>)"

definition export_data :: "(string \<Rightarrow> bool) \<Rightarrow> unit io" where
  "export_data decodes =
     try_except
       (io_bind (read_trip_totals decodes) (\<lambda>(total_miles, total_pay).
        io_bind (read_expense_total decodes) (\<lambda>total_expenses.
        io_then (write_summary (summary_rows total_miles total_pay total_expenses))
       (io_then (print ''Data export complete. Summary saved to 'exports/summary.csv'.'')
                (logging INFO ''Data exported successfully. Summary report generated.'')))))
       (\<lambda>e. io_then (logging ERROR ''Unexpected error in export_data: %s'')
                     (print ''An error occurred during data export. Check the log for details.''))"

section \<open>Concrete inputs\<close>

text \<open>States at which the theorems below are evaluated.\<close>

definition example_time :: struct_time where
  "example_time = \<lparr>tm_year = 2024, tm_mon = 3, tm_mday = 9, tm_hour = 14, tm_min = 5, tm_sec = 7\<rparr>"



text \<open>A candidate for Variant A and no main file.\<close>

definition fs_no_main_A :: filesys where
  "fs_no_main_A = [(''fix.update.py'', ''print(2)'')]"

text \<open>The watched folder of Variant B: with and without a main file beside it.\<close>

definition fs_main_B :: filesys where
  "fs_main_B = [(''Road_Hawk.py'', ''print(1)''), (''backups/new.py'', ''print(2)'')]"

definition fs_no_main_B :: filesys where
  "fs_no_main_B = [(''backups/new.py'', ''print(2)'')]"

definition fs_mixed_B :: filesys where
  "fs_mixed_B =
     [(''Road_Hawk.py'', ''print(1)''), (''backups/notes.md'', ''keep''),
      (''backups/new.py'', ''print(2)''), (''backups/memo.txt'', ''read me'')]"

subsection \<open>Sequences of appends\<close>




text \<open>
  The change of the trips file by at most one appended trip row: the file is as before, or
  its content is followed by the text of one more row of ten cells whose cells 6 and 7 are
  two-decimal texts, after the text of the header when the file is new.
\<close>

definition trip_appended :: "string option \<Rightarrow> string option \<Rightarrow> bool" where
  "trip_appended old new =
     (new = old \<or>
      (\<exists>row m p. length row = 10 \<and> row ! 6 = format_2f m \<and> row ! 7 = format_2f p \<and>
         new = Some ((case old of None \<Rightarrow> writerow trips_header | Some t \<Rightarrow> t) @ writerow row)))"

subsection \<open>Rows that are read back\<close>

text \<open>
  A row whose fields are within the field size limit of the reader, the state of the
  parser after the last character of a written field, and the rows that the export reads
  from a file: none when the file is absent.
\<close>

definition fields_ok :: "string list \<Rightarrow> bool" where
  "fields_ok row = list_all (\<lambda>f. length f \<le> field_limit) row"

definition field_end :: "string \<Rightarrow> parser_state" where
  "field_end f =
     (if needs_quotes f then QUOTE_IN_QUOTED_FIELD else if f = [] then START_FIELD else IN_FIELD)"


text \<open>The codec ASCII, for concrete runs: it decodes the contents whose bytes are below 128.\<close>

definition ascii :: "string \<Rightarrow> bool" where
  "ascii t = list_all (\<lambda>c. \<not> digit7 c) t"

subsection \<open>A datetime library for concrete runs\<close>

text \<open>
  An instance of the datetime interface, used only to evaluate concrete runs: a datetime
  is its text of the form \<^verbatim>\<open>YYYY-MM-DD HH:MM\<close>, the only form it reads; the offset of the
  zone is always \<^verbatim>\<open>-05:00\<close>; days are counted in the proleptic Gregorian calendar.
\<close>

definition demo_fromisoformat :: "string \<Rightarrow> string option" where
  "demo_fromisoformat s =
     (if length s = 16 \<and> list_all is_digit (take 4 s) \<and> s ! 4 = CHR ''-'' \<and>
         list_all is_digit (take 2 (drop 5 s)) \<and> s ! 7 = CHR ''-'' \<and>
         list_all is_digit (take 2 (drop 8 s)) \<and> s ! 10 = CHR 0x20 \<and>
         list_all is_digit (take 2 (drop 11 s)) \<and> s ! 13 = CHR '':'' \<and>
         list_all is_digit (take 2 (drop 14 s))
      then Some s else None)"

definition days_from_civil :: "int \<Rightarrow> int \<Rightarrow> int \<Rightarrow> int" where
  "days_from_civil y m d =
     (let y' = (if m \<le> 2 then y - 1 else y);
          era = y' div 400;
          yoe = y' - era * 400;
          doy = (153 * (if 2 < m then m - 3 else m + 9) + 2) div 5 + d - 1;
          doe = yoe * 365 + yoe div 4 - yoe div 100 + doy
      in era * 146097 + doe - 719468)"

definition demo_minutes :: "string \<Rightarrow> int" where
  "demo_minutes s =
     (days_from_civil (int (nat_of_digits (take 4 s))) (int (nat_of_digits (take 2 (drop 5 s))))
        (int (nat_of_digits (take 2 (drop 8 s)))) * 24 +
      int (nat_of_digits (take 2 (drop 11 s)))) * 60 +
     int (nat_of_digits (take 2 (drop 14 s)))"

definition demo_datetime :: "string datetime_lib" where
  "demo_datetime =
     \<lparr>fromisoformat = demo_fromisoformat,
      replace_tzinfo = (\<lambda>d. d),
      isoformat = (\<lambda>d. take 10 d @ ''T'' @ drop 11 d @ '':00-05:00''),
      hours_between = (\<lambda>a b. of_int (demo_minutes b - demo_minutes a) / 60),
      date_isoformat = take 10\<rparr>"

section \<open>Concrete states of the logger\<close>

definition console :: "string list \<Rightarrow> (string \<rightharpoonup> string) \<Rightarrow> logger" where
  "console lines fs = \<lparr>stdin = lines, files = fs, stdout = []\<rparr>"

text \<open>A company trip of 500 miles, and an owner trip with a revenue of 1000.\<close>

definition company_trip_input :: "string list" where
  "company_trip_input =
     [''T1'', ''Ann'', ''company'', ''2024-03-09 08:00'', ''2024-03-09 18:30'', ''500'', ''n'']"


text \<open>Malformed inputs: a date, the miles, the revenue, the amount of the expense of a trip.\<close>

definition bad_date_input :: "string list" where
  "bad_date_input = [''T1'', ''Ann'', ''company'', ''yesterday'', ''2024-03-09 18:30'', ''500'', ''n'']"

definition bad_miles_input :: "string list" where
  "bad_miles_input =
     [''T1'', ''Ann'', ''company'', ''2024-03-09 08:00'', ''2024-03-09 18:30'', ''far'', ''n'']"

definition bad_revenue_input :: "string list" where
  "bad_revenue_input =
     [''T1'', ''Ann'', ''owner'', ''2024-03-09 08:00'', ''2024-03-09 18:30'', ''500'', ''lots'', ''n'']"

definition bad_trip_expense_input :: "string list" where
  "bad_trip_expense_input =
     [''T1'', ''Ann'', ''company'', ''2024-03-09 08:00'', ''2024-03-09 18:30'', ''500'', ''y'',
      ''ten'']"

text \<open>Malformed inputs of \<open>log_expense\<close>: the amount, the date.\<close>

definition bad_amount_input :: "string list" where
  "bad_amount_input = [''Ann'', ''ten'', ''fuel'', ''2024-03-09 00:00'']"

definition bad_expense_date_input :: "string list" where
  "bad_expense_date_input = [''Ann'', ''10'', ''fuel'', ''today'']"

text \<open>
  Rows of files for the export: trips with one row whose pay is not a number and one whose
  miles are not; trips with one row whose miles are empty and one whose pay is empty;
  expenses with an empty amount and an amount. A file of such rows is the text that the
  writer gives for them.
\<close>

definition trips_half_numeric :: "string list list" where
  "trips_half_numeric =
     [trips_header,
      [''T1'', ''Ann'', ''company'', ''s'', ''e'', ''1.00'', ''10.00'', ''abc'', ''0.00'', []],
      [''T2'', ''Bob'', ''company'', ''s'', ''e'', ''1.00'', ''xyz'', ''5.00'', ''0.00'', []]]"

definition trips_with_blank :: "string list list" where
  "trips_with_blank =
     [trips_header,
      [''T1'', ''Ann'', ''company'', ''s'', ''e'', ''1.00'', [], ''5.00'', ''0.00'', []],
      [''T2'', ''Bob'', ''company'', ''s'', ''e'', ''1.00'', ''10.00'', [], ''0.00'', []]]"

definition expenses_with_blank :: "string list list" where
  "expenses_with_blank =
     [expenses_header, [''2024-03-09'', ''Ann'', [], ''fuel''], [''2024-03-10'', ''Ann'', ''7.50'', ''toll'']]"




section \<open>Facts about the library functions\<close>

lemma digit_char_numeral:
  "digit_char 0 = CHR ''0''" "digit_char (Suc 0) = CHR ''1''" "digit_char 1 = CHR ''1''"
  "digit_char 2 = CHR ''2''" "digit_char 3 = CHR ''3''" "digit_char 4 = CHR ''4''"
  "digit_char 5 = CHR ''5''" "digit_char 6 = CHR ''6''" "digit_char 7 = CHR ''7''"
  "digit_char 8 = CHR ''8''" "digit_char 9 = CHR ''9''"
  by (simp_all add: digit_char_def char_of_def bit_0 bit_Suc)

lemmas fs_defs = endswith_def os_path_join_def os_path_basename_def normpath_def os_path_exists_def
  dir_prefix_def in_dir_def os_listdir_def read_text_def write_text_def os_remove_def shutil_copy_def
  shutil_move_def is_linebreak_def digit_char_numeral pad2_def pad4_def strftime_YmdHMS_def

lemmas A_defs = WATCH_FOLDER_def BACKUP_FOLDER_A_def MAIN_FILE_def backup_path_A_def
  backup_current_version_def unified_diff_is_empty_def detect_changes_def truthy_def update_code_def
  process_file_A_def monitor_folder_A_def

lemmas B_defs = BACKUP_FOLDER_B_def ARCHIVE_FOLDER_def MAIN_SCRIPT_def backup_path_B_def
  apply_python_update_def archive_file_def process_file_B_def monitor_folder_B_def



lemma in_dir_iff: "in_dir pre p \<longleftrightarrow> (\<exists>f. p = pre @ f \<and> f \<noteq> [] \<and> CHR ''/'' \<notin> set f)"
proof
  assume d: "in_dir pre p"
  have "p = take (length pre) p @ drop (length pre) p" by simp
  with d have "p = pre @ drop (length pre) p" by (simp add: in_dir_def)
  with d show "\<exists>f. p = pre @ f \<and> f \<noteq> [] \<and> CHR ''/'' \<notin> set f"
    unfolding in_dir_def by blast
next
  assume "\<exists>f. p = pre @ f \<and> f \<noteq> [] \<and> CHR ''/'' \<notin> set f"
  then show "in_dir pre p" by (auto simp: in_dir_def)
qed

lemma in_os_listdir:
  "f \<in> set (os_listdir fs d) \<longleftrightarrow>
     dir_prefix d @ f \<in> fst ` set fs \<and> f \<noteq> [] \<and> CHR ''/'' \<notin> set f"
proof
  assume "f \<in> set (os_listdir fs d)"
  then obtain p where p: "p \<in> fst ` set fs" "in_dir (dir_prefix d) p"
    and f: "f = drop (length (dir_prefix d)) p"
    by (auto simp: os_listdir_def Let_def)
  from p(2) obtain g where g: "p = dir_prefix d @ g" "g \<noteq> []" "CHR ''/'' \<notin> set g"
    unfolding in_dir_iff by blast
  from f g(1) have "f = g" by simp
  with p(1) g show "dir_prefix d @ f \<in> fst ` set fs \<and> f \<noteq> [] \<and> CHR ''/'' \<notin> set f"
    by simp
next
  assume a: "dir_prefix d @ f \<in> fst ` set fs \<and> f \<noteq> [] \<and> CHR ''/'' \<notin> set f"
  then have "in_dir (dir_prefix d) (dir_prefix d @ f)"
    unfolding in_dir_iff by blast
  with a have "dir_prefix d @ f \<in> set (filter (in_dir (dir_prefix d)) (map fst fs))"
    by simp
  then have "drop (length (dir_prefix d)) (dir_prefix d @ f) \<in> set (os_listdir fs d)"
    unfolding os_listdir_def Let_def set_map by (rule imageI)
  then show "f \<in> set (os_listdir fs d)" by simp
qed

lemma os_listdir_no_slash: "\<forall>f \<in> set (os_listdir fs d). CHR ''/'' \<notin> set f"
  by (simp add: in_os_listdir)

lemma distinct_os_listdir:
  assumes "distinct (map fst fs)"
  shows "distinct (os_listdir fs d)"
proof -
  let ?pre = "dir_prefix d"
  have "inj_on (drop (length ?pre)) (set (filter (in_dir ?pre) (map fst fs)))"
  proof (rule inj_onI)
    fix p q
    assume "p \<in> set (filter (in_dir ?pre) (map fst fs))" "q \<in> set (filter (in_dir ?pre) (map fst fs))"
      and e: "drop (length ?pre) p = drop (length ?pre) q"
    then have "in_dir ?pre p" "in_dir ?pre q" by simp_all
    then obtain f g where "p = ?pre @ f" "q = ?pre @ g" unfolding in_dir_iff by blast
    with e show "p = q" by simp
  qed
  with assms show ?thesis
    by (simp add: os_listdir_def Let_def distinct_map)
qed

lemma dir_prefix_WATCH_FOLDER: "dir_prefix WATCH_FOLDER = []"
  by (simp add: dir_prefix_def WATCH_FOLDER_def normpath_def endswith_def)

lemma dir_prefix_BACKUP_FOLDER_B: "dir_prefix BACKUP_FOLDER_B = ''backups/''"
  by (simp add: dir_prefix_def BACKUP_FOLDER_B_def normpath_def endswith_def)

lemma no_slash_take1: "CHR ''/'' \<notin> set f \<Longrightarrow> take (Suc 0) f \<noteq> ''/''"
  by (cases f) auto


lemma normpath_join_BACKUP_FOLDER_B:
  "CHR ''/'' \<notin> set f \<Longrightarrow> normpath (os_path_join BACKUP_FOLDER_B f) = ''backups/'' @ f"
  by (simp add: os_path_join_def BACKUP_FOLDER_B_def no_slash_take1 endswith_def normpath_def)

lemma normpath_MAIN_FILE_id: "normpath MAIN_FILE = MAIN_FILE"
  by (simp add: normpath_def MAIN_FILE_def)

lemma normpath_MAIN_SCRIPT: "normpath MAIN_SCRIPT = ''Road_Hawk.py''"
  by (simp add: normpath_def MAIN_SCRIPT_def)

lemma normpath_MAIN_SCRIPT_id: "normpath MAIN_SCRIPT = MAIN_SCRIPT"
  by (simp add: normpath_def MAIN_SCRIPT_def)

lemma normpath_backup_path_A:
  "normpath (backup_path_A t) = ''backups/Road_Hawk_'' @ strftime_YmdHMS t @ ''.bak''"
  by (simp add: backup_path_A_def os_path_join_def BACKUP_FOLDER_A_def endswith_def normpath_def)

lemma normpath_backup_path_B:
  "normpath (backup_path_B t) = ''archive/Road_Hawk.py_'' @ strftime_YmdHMS t @ ''.bak''"
  by (simp add: backup_path_B_def os_path_join_def ARCHIVE_FOLDER_def MAIN_SCRIPT_def endswith_def
      normpath_def)


lemma backup_path_A_not_MAIN_FILE: "normpath (backup_path_A t) \<noteq> MAIN_FILE"
  by (simp add: normpath_backup_path_A MAIN_FILE_def)

lemma backup_path_B_not_MAIN_SCRIPT: "normpath (backup_path_B t) \<noteq> MAIN_SCRIPT"
  by (simp add: normpath_backup_path_B MAIN_SCRIPT_def)


subsection \<open>The time stamp has the resolution of one second\<close>

lemma digit_char_inj: "d < 10 \<Longrightarrow> e < 10 \<Longrightarrow> digit_char d = digit_char e \<Longrightarrow> d = e"
proof -
  assume d: "d < 10" and e: "e < 10" and eq: "digit_char d = digit_char e"
  from eq have "(of_char (digit_char d) :: nat) = of_char (digit_char e)" by simp
  with d e show "d = e" by (simp add: digit_char_def)
qed

lemma pad2_inj:
  assumes "a < 100" "b < 100" "pad2 a = pad2 b"
  shows "a = b"
proof -
  from assms(3) have 1: "digit_char (a div 10 mod 10) = digit_char (b div 10 mod 10)"
    and 2: "digit_char (a mod 10) = digit_char (b mod 10)"
    by (simp_all add: pad2_def)
  have "a div 10 mod 10 = b div 10 mod 10" by (rule digit_char_inj[OF _ _ 1]) simp_all
  with assms(1,2) have d: "a div 10 = b div 10" by simp
  have m: "a mod 10 = b mod 10" by (rule digit_char_inj[OF _ _ 2]) simp_all
  have "a = a div 10 * 10 + a mod 10" by simp
  also have "\<dots> = b div 10 * 10 + b mod 10" using d m by simp
  finally show ?thesis by simp
qed

lemma strftime_second_resolution:
  assumes "tm_sec t < 60" "tm_sec t' < 60" "strftime_YmdHMS t = strftime_YmdHMS t'"
  shows "tm_sec t = tm_sec t'"
proof -
  from assms(3) have "pad2 (tm_sec t) = pad2 (tm_sec t')"
    by (simp add: strftime_YmdHMS_def pad4_def pad2_def)
  with assms(1,2) show ?thesis by (intro pad2_inj) simp_all
qed

section \<open>Variant A\<close>

lemma fresh_install_raises:
  "\<not> os_path_exists fs MAIN_FILE \<Longrightarrow> update_code t fs new_code = Inl FileNotFoundError"
  by (simp add: update_code_def detect_changes_def truthy_def backup_current_version_def
      shutil_copy_def os_path_exists_def)

text \<open>
  When Variant A overwrites an existing main file, the old content has been copied first
  to the backup path, whose name holds the time stamp.
\<close>

lemma update_code_backs_up:
  assumes "map_of fs MAIN_FILE = Some old" "update_code t fs new_code = Inr fs'" "fs' \<noteq> fs"
  shows "map_of fs' (normpath (backup_path_A t)) = Some old \<and> map_of fs' MAIN_FILE = Some new_code"
proof -
  have bk: "backup_current_version t fs = Inr (AList.update (normpath (backup_path_A t)) old fs)"
    using assms(1) by (simp add: backup_current_version_def shutil_copy_def normpath_MAIN_FILE_id)
  from assms(2,3) bk
  have "fs' = AList.update MAIN_FILE new_code (AList.update (normpath (backup_path_A t)) old fs)"
    by (auto simp: update_code_def write_text_def normpath_MAIN_FILE_id split: sum.splits if_splits)
  then show ?thesis
    using backup_path_A_not_MAIN_FILE[of t] by (simp add: update_conv')
qed




text \<open>
  C6. With a candidate in the folder and no main file, \<open>detect_changes\<close> answers with a
  fresh install, then \<open>backup_current_version\<close> copies the absent main file: the copy raises
  \<^verbatim>\<open>FileNotFoundError\<close>, nothing is installed and the pass of the watcher ends with the
  exception.
\<close>

theorem fresh_install_crashes_A:
  "os_listdir fs_no_main_A WATCH_FOLDER = [''fix.update.py''] \<and>
   os_path_exists fs_no_main_A MAIN_FILE = False \<and>
   detect_changes fs_no_main_A ''print(2)'' = Inr Fresh_Install \<and>
   process_file_A example_time fs_no_main_A ''fix.update.py'' = Inl FileNotFoundError \<and>
   monitor_folder_A (\<lambda>_. example_time) fs_no_main_A = Inl FileNotFoundError"
  by (simp add: fs_defs A_defs example_time_def fs_no_main_A_def)

section \<open>Variant B\<close>

lemma shutil_copy_delete:
  "p \<noteq> normpath src \<Longrightarrow> p \<noteq> normpath dst \<Longrightarrow>
   shutil_copy (AList.delete p fs) src dst = map_sum id (AList.delete p) (shutil_copy fs src dst)"
  by (simp add: shutil_copy_def delete_update split: option.splits)

lemma shutil_move_delete:
  "p \<noteq> normpath src \<Longrightarrow> p \<noteq> normpath dst \<Longrightarrow>
   shutil_move (AList.delete p fs) src dst = map_sum id (AList.delete p) (shutil_move fs src dst)"
  by (simp add: shutil_move_def delete_update delete_twist split: option.splits)

lemma shutil_copy_frame:
  "shutil_copy fs src dst = Inr fs' \<Longrightarrow> p \<noteq> normpath dst \<Longrightarrow> map_of fs' p = map_of fs p"
  by (auto simp: shutil_copy_def update_conv' split: option.splits)

lemma shutil_move_frame:
  "shutil_move fs src dst = Inr fs' \<Longrightarrow> p \<noteq> normpath src \<Longrightarrow> p \<noteq> normpath dst \<Longrightarrow>
   map_of fs' p = map_of fs p"
  by (auto simp: shutil_move_def update_conv' delete_conv' split: option.splits)

lemma shutil_move_returns:
  "map_of fs (normpath src) \<noteq> None \<Longrightarrow> \<exists>fs'. shutil_move fs src dst = Inr fs'"
  by (auto simp: shutil_move_def)

lemma os_path_basename_join:
  assumes "CHR ''/'' \<notin> set f"
  shows "os_path_basename (os_path_join BACKUP_FOLDER_B f) = f"
proof -
  have "takeWhile (\<lambda>c. c \<noteq> CHR ''/'') (rev f @ ''/spukcab'') =
        rev f @ takeWhile (\<lambda>c. c \<noteq> CHR ''/'') ''/spukcab''"
    using assms by (intro takeWhile_append2) auto
  then show ?thesis
    using assms
    by (simp add: os_path_basename_def os_path_join_def BACKUP_FOLDER_B_def no_slash_take1
        endswith_def)
qed

lemma normpath_archive_location:
  "CHR ''/'' \<notin> set f \<Longrightarrow>
   normpath (os_path_join ARCHIVE_FOLDER (os_path_basename (os_path_join BACKUP_FOLDER_B f))) =
   ''archive/'' @ f"
  by (simp add: os_path_basename_join)
     (simp add: os_path_join_def ARCHIVE_FOLDER_def no_slash_take1 endswith_def normpath_def)

lemma apply_python_update_delete:
  assumes "p \<noteq> normpath MAIN_SCRIPT" "p \<noteq> normpath (backup_path_B t)" "p \<noteq> normpath up"
  shows "apply_python_update t (AList.delete p fs) up =
         map_sum id (AList.delete p) (apply_python_update t fs up)"
proof (cases "os_path_exists fs MAIN_SCRIPT")
  case True
  with assms(1) have e: "os_path_exists (AList.delete p fs) MAIN_SCRIPT"
    by (simp add: os_path_exists_def)
  show ?thesis
  proof (cases "shutil_copy fs MAIN_SCRIPT (backup_path_B t)")
    case (Inl e')
    then show ?thesis using True e assms
      by (simp add: apply_python_update_def shutil_copy_delete)
  next
    case (Inr fs1)
    then show ?thesis using True e assms
      by (simp add: apply_python_update_def shutil_copy_delete shutil_move_delete)
  qed
next
  case False
  with assms(1) have e: "\<not> os_path_exists (AList.delete p fs) MAIN_SCRIPT"
    by (simp add: os_path_exists_def)
  show ?thesis using False e assms
    by (simp add: apply_python_update_def shutil_move_delete)
qed

lemma apply_python_update_frame:
  assumes "apply_python_update t fs up = Inr fs'"
    and "p \<noteq> normpath MAIN_SCRIPT" "p \<noteq> normpath (backup_path_B t)" "p \<noteq> normpath up"
  shows "map_of fs' p = map_of fs p"
proof (cases "os_path_exists fs MAIN_SCRIPT")
  case True
  with assms(1) obtain fs1 where c: "shutil_copy fs MAIN_SCRIPT (backup_path_B t) = Inr fs1"
    and m: "shutil_move fs1 up MAIN_SCRIPT = Inr fs'"
    by (auto simp: apply_python_update_def split: sum.splits)
  from c assms(3) have "map_of fs1 p = map_of fs p" by (rule shutil_copy_frame)
  moreover from m assms(4,2) have "map_of fs' p = map_of fs1 p" by (rule shutil_move_frame)
  ultimately show ?thesis by simp
next
  case False
  with assms(1) have "shutil_move fs up MAIN_SCRIPT = Inr fs'"
    by (simp add: apply_python_update_def)
  from this assms(4,2) show ?thesis by (rule shutil_move_frame)
qed

text \<open>
  Variant B with a main file: the old content is copied to the archive under a name with
  the time stamp, then the candidate is moved onto the main file. Without a main file the
  copy is skipped and the candidate is installed.
\<close>

lemma apply_python_update_backs_up:
  assumes "map_of fs MAIN_SCRIPT = Some old" "map_of fs (normpath up) = Some c"
    and "normpath up \<noteq> MAIN_SCRIPT" "normpath up \<noteq> normpath (backup_path_B t)"
  shows "\<exists>fs'. apply_python_update t fs up = Inr fs' \<and>
           map_of fs' (normpath (backup_path_B t)) = Some old \<and>
           map_of fs' MAIN_SCRIPT = Some c \<and> map_of fs' (normpath up) = None"
  using assms backup_path_B_not_MAIN_SCRIPT[of t]
  by (simp add: apply_python_update_def os_path_exists_def shutil_copy_def shutil_move_def
      normpath_MAIN_SCRIPT_id update_conv' delete_conv')

lemma apply_python_update_fresh:
  assumes "map_of fs MAIN_SCRIPT = None" "map_of fs (normpath up) = Some c"
  shows "apply_python_update t fs up = Inr (AList.update MAIN_SCRIPT c (AList.delete (normpath up) fs))"
  using assms
  by (simp add: apply_python_update_def os_path_exists_def shutil_move_def normpath_MAIN_SCRIPT_id)

lemma watched_not_special:
  assumes "p = ''backups/'' @ n"
  shows "p \<noteq> normpath MAIN_SCRIPT" "p \<noteq> normpath (backup_path_B t)"
  using assms by (simp_all add: normpath_MAIN_SCRIPT normpath_backup_path_B)

lemma watched_not_other:
  assumes "p = ''backups/'' @ n" "CHR ''/'' \<notin> set f" "f \<noteq> n"
  shows "p \<noteq> normpath (os_path_join BACKUP_FOLDER_B f)"
    and "p \<noteq> normpath (os_path_join ARCHIVE_FOLDER
                 (os_path_basename (os_path_join BACKUP_FOLDER_B f)))"
  using assms by (simp_all add: normpath_join_BACKUP_FOLDER_B normpath_archive_location)

lemma process_file_B_delete:
  assumes "p = ''backups/'' @ n" "CHR ''/'' \<notin> set f" "f \<noteq> n"
  shows "process_file_B t (AList.delete p fs) f = map_sum id (AList.delete p) (process_file_B t fs f)"
  using watched_not_other[OF assms] watched_not_special[OF assms(1)]
  by (simp add: process_file_B_def Let_def apply_python_update_delete archive_file_def
      shutil_move_delete)

lemma process_file_B_ignored:
  "\<not> endswith n ''.py'' \<Longrightarrow> \<not> endswith n ''.txt'' \<Longrightarrow> \<not> endswith n ''.docx'' \<Longrightarrow>
   process_file_B t fs n = Inr fs"
  by (simp add: process_file_B_def)

lemma process_file_B_frame:
  assumes "process_file_B t fs f = Inr fs'" "p = ''backups/'' @ n" "CHR ''/'' \<notin> set f" "f \<noteq> n"
  shows "map_of fs' p = map_of fs p"
proof -
  note o = watched_not_other[OF assms(2-4)] and s = watched_not_special[OF assms(2)]
  consider (py) "endswith f ''.py''"
    | (doc) "\<not> endswith f ''.py''" "endswith f ''.txt'' \<or> endswith f ''.docx''"
    | (other) "\<not> endswith f ''.py''" "\<not> (endswith f ''.txt'' \<or> endswith f ''.docx'')"
    by blast
  then show ?thesis
  proof cases
    case py
    with assms(1) have "apply_python_update t fs (os_path_join BACKUP_FOLDER_B f) = Inr fs'"
      by (simp add: process_file_B_def)
    from this s o(1) show ?thesis by (rule apply_python_update_frame)
  next
    case doc
    with assms(1) have "shutil_move fs (os_path_join BACKUP_FOLDER_B f)
        (os_path_join ARCHIVE_FOLDER (os_path_basename (os_path_join BACKUP_FOLDER_B f))) = Inr fs'"
      by (simp add: process_file_B_def archive_file_def Let_def)
    from this o show ?thesis by (rule shutil_move_frame)
  next
    case other
    with assms(1) show ?thesis by (simp add: process_file_B_def)
  qed
qed

lemma process_file_B_returns:
  assumes "CHR ''/'' \<notin> set f" "map_of fs (''backups/'' @ f) \<noteq> None"
  shows "\<exists>fs'. process_file_B t fs f = Inr fs'"
proof -
  have up: "normpath (os_path_join BACKUP_FOLDER_B f) = ''backups/'' @ f"
    using assms(1) by (rule normpath_join_BACKUP_FOLDER_B)
  have mv: "\<exists>fs'. shutil_move fs (os_path_join BACKUP_FOLDER_B f) dst = Inr fs'" for dst
  proof (rule shutil_move_returns)
    show "map_of fs (normpath (os_path_join BACKUP_FOLDER_B f)) \<noteq> None"
      unfolding up by (rule assms(2))
  qed
  show ?thesis
  proof (cases "endswith f ''.py''")
    case True
    show ?thesis
    proof (cases "map_of fs (normpath MAIN_SCRIPT)")
      case None
      then show ?thesis using True mv
        by (simp add: process_file_B_def apply_python_update_def os_path_exists_def)
    next
      case (Some old)
      define fs1 where "fs1 = AList.update (normpath (backup_path_B t)) old fs"
      have "map_of fs1 (''backups/'' @ f) \<noteq> None"
        using assms(2) by (simp add: fs1_def update_conv' normpath_backup_path_B)
      then have "map_of fs1 (normpath (os_path_join BACKUP_FOLDER_B f)) \<noteq> None"
        unfolding up .
      then have "\<exists>fs'. shutil_move fs1 (os_path_join BACKUP_FOLDER_B f) MAIN_SCRIPT = Inr fs'"
        by (rule shutil_move_returns)
      then show ?thesis using True Some
        by (simp add: process_file_B_def apply_python_update_def os_path_exists_def
            shutil_copy_def fs1_def)
    qed
  next
    case False
    then show ?thesis using mv
      by (simp add: process_file_B_def archive_file_def Let_def)
  qed
qed

lemma for_files_B_delete:
  assumes "\<not> endswith n ''.py''" "\<not> endswith n ''.txt''" "\<not> endswith n ''.docx''"
    and "p = ''backups/'' @ n"
    and "\<forall>f \<in> set names. CHR ''/'' \<notin> set f"
  shows "for_files_B clock (filter (\<lambda>f. f \<noteq> n) names) (AList.delete p fs) =
         map_sum id (AList.delete p) (for_files_B clock names fs)"
  using assms(5)
proof (induction names arbitrary: fs)
  case Nil
  then show ?case by simp
next
  case (Cons f names)
  show ?case
  proof (cases "f = n")
    case True
    then show ?thesis using Cons assms(1-3) by (simp add: process_file_B_ignored)
  next
    case False
    with Cons.prems have pd: "process_file_B (clock f) (AList.delete p fs) f =
         map_sum id (AList.delete p) (process_file_B (clock f) fs f)"
      using assms(4) by (simp add: process_file_B_delete)
    show ?thesis
    proof (cases "process_file_B (clock f) fs f")
      case (Inl e)
      then show ?thesis using False pd by simp
    next
      case (Inr fs1)
      then show ?thesis using False pd Cons by simp
    qed
  qed
qed

lemma for_files_B_frame:
  assumes "\<not> endswith n ''.py''" "\<not> endswith n ''.txt''" "\<not> endswith n ''.docx''"
    and "p = ''backups/'' @ n"
    and "\<forall>f \<in> set names. CHR ''/'' \<notin> set f"
    and "for_files_B clock names fs = Inr fs'"
  shows "map_of fs' p = map_of fs p"
  using assms(5,6)
proof (induction names arbitrary: fs)
  case Nil
  then show ?case by simp
next
  case (Cons f names)
  from Cons.prems(2) obtain fs1 where 1: "process_file_B (clock f) fs f = Inr fs1"
    and 2: "for_files_B clock names fs1 = Inr fs'"
    by (auto split: sum.splits)
  have "map_of fs1 p = map_of fs p"
  proof (cases "f = n")
    case True
    with 1 assms(1-3) show ?thesis by (simp add: process_file_B_ignored)
  next
    case False
    with 1 assms(4) Cons.prems(1) show ?thesis by (auto intro: process_file_B_frame)
  qed
  moreover have "map_of fs' p = map_of fs1 p"
    using Cons.IH[OF _ 2] Cons.prems(1) by simp
  ultimately show ?case by simp
qed

lemma for_files_B_returns:
  assumes "distinct names"
    and "\<forall>f \<in> set names. CHR ''/'' \<notin> set f \<and> map_of fs (''backups/'' @ f) \<noteq> None"
  shows "\<exists>fs'. for_files_B clock names fs = Inr fs'"
  using assms
proof (induction names arbitrary: fs)
  case Nil
  then show ?case by simp
next
  case (Cons f names)
  from Cons.prems(2) obtain fs1 where 1: "process_file_B (clock f) fs f = Inr fs1"
    using process_file_B_returns[of f fs "clock f"] by auto
  have "\<forall>g \<in> set names. CHR ''/'' \<notin> set g \<and> map_of fs1 (''backups/'' @ g) \<noteq> None"
  proof
    fix g assume g: "g \<in> set names"
    with Cons.prems(1) have "f \<noteq> g" by auto
    with Cons.prems(2) have "map_of fs1 (''backups/'' @ g) = map_of fs (''backups/'' @ g)"
      by (intro process_file_B_frame[OF 1 refl]) simp_all
    with Cons.prems(2) g show "CHR ''/'' \<notin> set g \<and> map_of fs1 (''backups/'' @ g) \<noteq> None"
      by simp
  qed
  with Cons.IH[of fs1] Cons.prems(1) obtain fs' where "for_files_B clock names fs1 = Inr fs'"
    by auto
  with 1 show ?case by simp
qed

lemma in_os_listdir_B:
  "f \<in> set (os_listdir fs BACKUP_FOLDER_B) \<longleftrightarrow>
     map_of fs (''backups/'' @ f) \<noteq> None \<and> f \<noteq> [] \<and> CHR ''/'' \<notin> set f"
  unfolding in_os_listdir dir_prefix_BACKUP_FOLDER_B
  by (metis domIff dom_map_of_conv_image_fst)

lemma monitor_folder_B_returns:
  assumes "distinct (map fst fs)"
  shows "\<exists>fs'. monitor_folder_B clock fs = Inr fs'"
  unfolding monitor_folder_B_def
  using assms by (intro for_files_B_returns distinct_os_listdir) (simp_all add: in_os_listdir_B)

lemma os_listdir_delete:
  assumes "p = ''backups/'' @ n"
  shows "os_listdir (AList.delete p fs) BACKUP_FOLDER_B =
         filter (\<lambda>f. f \<noteq> n) (os_listdir fs BACKUP_FOLDER_B)"
proof -
  have eq: "(q \<noteq> p) = (drop (length ''backups/'') q \<noteq> n)" if "in_dir ''backups/'' q" for q
    using that assms unfolding in_dir_iff by auto
  have "map (drop (length ''backups/'')) (filter (in_dir ''backups/'') (map fst (AList.delete p fs))) =
        filter (\<lambda>f. f \<noteq> n)
          (map (drop (length ''backups/'')) (filter (in_dir ''backups/'') (map fst fs)))"
  proof (induction fs)
    case Nil
    show ?case by simp
  next
    case (Cons a fs)
    show ?case
    proof (cases "in_dir ''backups/'' (fst a)")
      case True
      from eq[OF True] Cons True show ?thesis
        by (cases "fst a = p") (simp_all del: list.size)
    next
      case False
      with Cons show ?thesis
        by (cases "fst a = p") (simp_all del: list.size)
    qed
  qed
  then show ?thesis
    unfolding os_listdir_def dir_prefix_BACKUP_FOLDER_B Let_def .
qed

text \<open>
  C10. One pass of Variant B leaves a file of the watched folder whose name ends in none
  of \<^verbatim>\<open>.py\<close>, \<^verbatim>\<open>.txt\<close>, \<^verbatim>\<open>.docx\<close> as it is: after the pass its path holds the same content and
  its name is still listed, so the next pass examines it again. The pass does nothing on
  its account: run on the file system without that file, the pass gives the same result
  but for that file (the same exception, or the same files everywhere else, the main
  script and the archive included). On a file system with one entry per path the pass
  returns.
\<close>

theorem ignored_file_untouched_B:
  assumes "n \<in> set (os_listdir fs BACKUP_FOLDER_B)"
    and "\<not> endswith n ''.py''" "\<not> endswith n ''.txt''" "\<not> endswith n ''.docx''"
    and "p = os_path_join BACKUP_FOLDER_B n"
  shows "(\<forall>fs'. monitor_folder_B clock fs = Inr fs' \<longrightarrow>
            map_of fs' (normpath p) = map_of fs (normpath p) \<and>
            n \<in> set (os_listdir fs' BACKUP_FOLDER_B)) \<and>
         monitor_folder_B clock (AList.delete (normpath p) fs) =
           map_sum id (AList.delete (normpath p)) (monitor_folder_B clock fs) \<and>
         (distinct (map fst fs) \<longrightarrow> (\<exists>fs'. monitor_folder_B clock fs = Inr fs'))"
proof -
  from assms(1) have ns: "CHR ''/'' \<notin> set n" and ne: "n \<noteq> []"
    and ex: "map_of fs (''backups/'' @ n) \<noteq> None"
    by (simp_all add: in_os_listdir_B)
  have p: "normpath p = ''backups/'' @ n"
    using ns assms(5) by (simp add: normpath_join_BACKUP_FOLDER_B)
  have frame: "map_of fs' (normpath p) = map_of fs (normpath p) \<and>
               n \<in> set (os_listdir fs' BACKUP_FOLDER_B)"
    if "monitor_folder_B clock fs = Inr fs'" for fs'
  proof -
    from that have "for_files_B clock (os_listdir fs BACKUP_FOLDER_B) fs = Inr fs'"
      by (simp add: monitor_folder_B_def)
    with assms(2-4) p os_listdir_no_slash
    have m: "map_of fs' (normpath p) = map_of fs (normpath p)"
      by (rule for_files_B_frame)
    with ex p ns ne show ?thesis by (simp add: in_os_listdir_B)
  qed
  have "monitor_folder_B clock (AList.delete (normpath p) fs) =
        map_sum id (AList.delete (normpath p)) (monitor_folder_B clock fs)"
    unfolding monitor_folder_B_def os_listdir_delete[OF p]
    using assms(2-4) p os_listdir_no_slash by (rule for_files_B_delete)
  with frame monitor_folder_B_returns[of fs clock] show ?thesis by blast
qed

theorem ignored_file_untouched_B_witness:
  "''notes.md'' \<in> set (os_listdir fs_mixed_B BACKUP_FOLDER_B) \<and>
   endswith ''notes.md'' ''.py'' = False \<and> endswith ''notes.md'' ''.txt'' = False \<and>
   endswith ''notes.md'' ''.docx'' = False \<and>
   monitor_folder_B (\<lambda>_. example_time) fs_mixed_B =
     Inr [(''Road_Hawk.py'', ''print(2)''), (''backups/notes.md'', ''keep''),
          (''archive/Road_Hawk.py_20240309-140507.bak'', ''print(1)''),
          (''archive/memo.txt'', ''read me'')] \<and>
   monitor_folder_B (\<lambda>_. example_time) (AList.delete ''backups/notes.md'' fs_mixed_B) =
     Inr [(''Road_Hawk.py'', ''print(2)''),
          (''archive/Road_Hawk.py_20240309-140507.bak'', ''print(1)''),
          (''archive/memo.txt'', ''read me'')]"
proof -
  have h: "''notes.md'' \<in> set (os_listdir fs_mixed_B BACKUP_FOLDER_B)"
    "\<not> endswith ''notes.md'' ''.py''" "\<not> endswith ''notes.md'' ''.txt''"
    "\<not> endswith ''notes.md'' ''.docx''"
    by (simp_all add: fs_defs BACKUP_FOLDER_B_def fs_mixed_B_def)
  have r: "monitor_folder_B (\<lambda>_. example_time) fs_mixed_B =
     Inr [(''Road_Hawk.py'', ''print(2)''), (''backups/notes.md'', ''keep''),
          (''archive/Road_Hawk.py_20240309-140507.bak'', ''print(1)''),
          (''archive/memo.txt'', ''read me'')]"
    by (simp add: fs_defs B_defs example_time_def fs_mixed_B_def)
  have n: "normpath (os_path_join BACKUP_FOLDER_B ''notes.md'') = ''backups/notes.md''"
    by (simp add: fs_defs BACKUP_FOLDER_B_def)
  from ignored_file_untouched_B[OF h refl, of "\<lambda>_. example_time"] h r show ?thesis
    by (simp add: n)
qed

text \<open>
  C5. Both variants copy an existing main file to a path with the time stamp before they
  overwrite it (\<open>update_code_backs_up\<close>, \<open>apply_python_update_backs_up\<close>,
  \<open>strftime_second_resolution\<close>), and Variant B installs without a backup when there is no
  main file (\<open>apply_python_update_fresh\<close>). Variant A does not install on a missing main
  file: its backup raises \<^verbatim>\<open>FileNotFoundError\<close>. The four cases at concrete file systems:
\<close>

theorem backup_then_overwrite_cases:
  "update_code example_time fs_main_B ''print(2)'' =
     Inr [(''Road_Hawk.py'', ''print(2)''), (''backups/new.py'', ''print(2)''),
          (''backups/Road_Hawk_20240309-140507.bak'', ''print(1)'')] \<and>
   apply_python_update example_time fs_main_B ''backups/new.py'' =
     Inr [(''Road_Hawk.py'', ''print(2)''),
          (''archive/Road_Hawk.py_20240309-140507.bak'', ''print(1)'')] \<and>
   apply_python_update example_time fs_no_main_B ''backups/new.py'' =
     Inr [(''Road_Hawk.py'', ''print(2)'')] \<and>
   detect_changes fs_no_main_B ''print(2)'' = Inr Fresh_Install \<and>
   backup_current_version example_time fs_no_main_B = Inl FileNotFoundError \<and>
   update_code example_time fs_no_main_B ''print(2)'' = Inl FileNotFoundError"
  by (simp add: fs_defs A_defs B_defs example_time_def fs_main_B_def fs_no_main_B_def)


section \<open>The logger\<close>

subsection \<open>Numbers and their text\<close>

declare digits_of_nat.simps [simp del]

lemmas text_defs = is_space_def strip_def lower_char_def lower_def is_digit_def digit_val_def
  nat_of_digits_def split_sign_def float_of_string_def round_half_even_def format_2f_def
  pad2_def digit_char_numeral digits_of_nat.simps


lemma is_digit_digit_char: "d < 10 \<Longrightarrow> is_digit (digit_char d)"
  by (simp add: is_digit_def digit_char_def)

lemma digit_val_digit_char: "d < 10 \<Longrightarrow> digit_val (digit_char d) = d"
  by (simp add: digit_val_def digit_char_def)

lemma nat_of_digits_snoc: "nat_of_digits (ds @ [c]) = 10 * nat_of_digits ds + digit_val c"
  by (simp add: nat_of_digits_def)

lemma digits_of_nat_digits: "list_all is_digit (digits_of_nat n)"
  by (induction n rule: digits_of_nat.induct)
     (subst digits_of_nat.simps, simp add: is_digit_digit_char)

lemma digits_of_nat_nonempty: "digits_of_nat n \<noteq> []"
  by (subst digits_of_nat.simps) simp

lemma nat_of_digits_of_nat: "nat_of_digits (digits_of_nat n) = n"
proof (induction n rule: digits_of_nat.induct)
  case (1 n)
  show ?case
  proof (cases "n < 10")
    case True
    then show ?thesis
      by (subst digits_of_nat.simps) (simp add: nat_of_digits_def digit_val_digit_char)
  next
    case False
    with 1 show ?thesis
      by (subst digits_of_nat.simps) (simp add: nat_of_digits_snoc digit_val_digit_char)
  qed
qed

lemma pad2_digits: "list_all is_digit (pad2 n)"
  by (simp add: pad2_def is_digit_digit_char)

lemma nat_of_digits_pad2: "n < 100 \<Longrightarrow> nat_of_digits (pad2 n) = n"
  by (simp add: pad2_def nat_of_digits_def digit_val_digit_char)

lemma is_digit_not_space: "is_digit c \<Longrightarrow> \<not> is_space c"
  by (auto simp: is_digit_def is_space_def)

lemma is_digit_not_sign: "is_digit c \<Longrightarrow> c \<noteq> CHR ''-'' \<and> c \<noteq> CHR ''+'' \<and> c \<noteq> CHR ''.''"
  by (auto simp: is_digit_def)

lemma strip_id:
  assumes "s \<noteq> []" "\<not> is_space (hd s)" "\<not> is_space (last s)"
  shows "strip s = s"
proof -
  from assms(1,2) have "dropWhile is_space s = s" by (cases s) auto
  moreover from assms(1,3) have "dropWhile is_space (rev s) = rev s"
    by (cases "rev s") (auto simp: last_rev[symmetric])
  ultimately show ?thesis by (simp add: strip_def)
qed

lemma takeWhile_digits_point:
  assumes "list_all is_digit ds"
  shows "takeWhile is_digit (ds @ CHR ''.'' # fs) = ds"
    and "dropWhile is_digit (ds @ CHR ''.'' # fs) = CHR ''.'' # fs"
  using assms by (induction ds) (auto simp: is_digit_def)

lemma float_of_unsigned:
  assumes "list_all is_digit ds" "ds \<noteq> []" "m < 100"
  shows "float_of_string (ds @ ''.'' @ pad2 m) = Inr (of_nat (nat_of_digits ds) + of_nat m / 100)"
proof -
  let ?s = "ds @ ''.'' @ pad2 m"
  from assms(1,2) have hd: "is_digit (hd ?s)" by (cases ds) auto
  have "is_digit (last ?s)" by (simp add: pad2_def is_digit_digit_char)
  with hd have st: "strip ?s = ?s"
    by (intro strip_id) (auto simp: is_digit_not_space)
  from hd assms(2) have sg: "split_sign ?s = (False, ?s)"
    by (cases ds) (auto simp: split_sign_def dest: is_digit_not_sign)
  show ?thesis
    unfolding float_of_string_def st sg
    using assms takeWhile_digits_point[OF assms(1), of "pad2 m"]
    by (simp add: pad2_digits nat_of_digits_pad2) (simp add: pad2_def)
qed

lemma float_of_signed:
  assumes "list_all is_digit ds" "ds \<noteq> []" "m < 100"
  shows "float_of_string (''-'' @ ds @ ''.'' @ pad2 m) = Inr (- (of_nat (nat_of_digits ds) + of_nat m / 100))"
proof -
  let ?u = "ds @ ''.'' @ pad2 m"
  let ?s = "''-'' @ ?u"
  have "\<not> is_space (hd ?s)" by (simp add: is_space_def)
  moreover have "is_digit (last ?s)" by (simp add: pad2_def is_digit_digit_char)
  ultimately have st: "strip ?s = ?s"
    by (intro strip_id) (auto simp: is_digit_not_space)
  have sg: "split_sign ?s = (True, ?u)"
    by (simp add: split_sign_def)
  show ?thesis
    unfolding float_of_string_def st sg
    using assms takeWhile_digits_point[OF assms(1), of "pad2 m"]
    by (simp add: pad2_digits nat_of_digits_pad2) (simp add: pad2_def)
qed

lemma float_of_format_2f:
  "float_of_string (format_2f x) =
     Inr ((if x < 0 then - 1 else 1) * (of_nat (nat (round_half_even (\<bar>x\<bar> * 100))) / 100))"
proof -
  define c where "c = nat (round_half_even (\<bar>x\<bar> * 100))"
  have v: "(of_nat (c div 100) :: rat) + of_nat (c mod 100) / 100 = of_nat c / 100"
  proof -
    have "(of_nat c :: rat) = of_nat (c div 100 * 100 + c mod 100)" by simp
    also have "\<dots> = of_nat (c div 100) * 100 + of_nat (c mod 100)" by (simp only: of_nat_add of_nat_mult of_nat_numeral)
    finally show ?thesis by (simp add: field_simps)
  qed
  show ?thesis
  proof (cases "x < 0")
    case True
    then have "format_2f x = ''-'' @ digits_of_nat (c div 100) @ ''.'' @ pad2 (c mod 100)"
      by (simp add: format_2f_def c_def Let_def)
    then show ?thesis
      using True v float_of_signed[OF digits_of_nat_digits digits_of_nat_nonempty, of "c mod 100" "c div 100"]
      by (simp add: nat_of_digits_of_nat c_def)
  next
    case False
    then have "format_2f x = digits_of_nat (c div 100) @ ''.'' @ pad2 (c mod 100)"
      by (simp add: format_2f_def c_def Let_def)
    then show ?thesis
      using False v float_of_unsigned[OF digits_of_nat_digits digits_of_nat_nonempty, of "c mod 100" "c div 100"]
      by (simp add: nat_of_digits_of_nat c_def)
  qed
qed

lemma format_2f_nonempty: "format_2f x \<noteq> []"
  by (simp add: format_2f_def Let_def)

subsection \<open>Reading back what the writer wrote\<close>

lemma parse_add_char_ok:
  "length f < field_limit \<Longrightarrow> parse_add_char st fs f c = Inr (st, fs, f @ [c])"
  by (simp add: parse_add_char_def)

lemma read_quoted_char:
  assumes "c \<noteq> CHR 0x22" "length g < field_limit"
  shows "read_chars (c # cs) (IN_QUOTED_FIELD, fs, g) rows =
         read_chars cs (IN_QUOTED_FIELD, fs, g @ [c]) rows"
  using assms by (simp add: parse_add_char_ok)

lemma read_quoted_quote:
  assumes "length g < field_limit" "cs \<noteq> []"
  shows "read_chars (CHR 0x22 # CHR 0x22 # cs) (IN_QUOTED_FIELD, fs, g) rows =
         read_chars cs (IN_QUOTED_FIELD, fs, g @ [CHR 0x22]) rows"
  using assms by (simp add: parse_add_char_ok ends_line_def)

lemma read_quoted_body:
  assumes "length (g @ s) \<le> field_limit" "rest \<noteq> []"
  shows "read_chars (double_quotes s @ rest) (IN_QUOTED_FIELD, fs, g) rows =
         read_chars rest (IN_QUOTED_FIELD, fs, g @ s) rows"
  using assms
proof (induction s arbitrary: g)
  case Nil
  show ?case by (simp add: double_quotes_def)
next
  case (Cons c s)
  from Cons.prems have l: "length g < field_limit" and l': "length ((g @ [c]) @ s) \<le> field_limit"
    by simp_all
  have r: "double_quotes s @ rest \<noteq> []" using Cons.prems(2) by simp
  show ?case
  proof (cases "c = CHR 0x22")
    case True
    have "double_quotes (c # s) @ rest = CHR 0x22 # CHR 0x22 # (double_quotes s @ rest)"
      using True by (simp add: double_quotes_def)
    then show ?thesis
      using read_quoted_quote[OF l r, of fs rows] Cons.IH[OF l' Cons.prems(2)] True by simp
  next
    case False
    have "double_quotes (c # s) @ rest = c # (double_quotes s @ rest)"
      using False by (simp add: double_quotes_def)
    then show ?thesis
      using read_quoted_char[OF False l, of "double_quotes s @ rest" fs rows]
        Cons.IH[OF l' Cons.prems(2)] by simp
  qed
qed

lemma read_plain_char:
  assumes "c \<noteq> CHR 0x22" "c \<noteq> CHR '',''" "c \<noteq> CHR 0x0D" "c \<noteq> CHR 0x0A"
    and "length g < field_limit" "cs \<noteq> []"
  shows "read_chars (c # cs) (IN_FIELD, fs, g) rows = read_chars cs (IN_FIELD, fs, g @ [c]) rows"
  using assms by (simp add: parse_add_char_ok ends_line_def)

lemma read_plain_body:
  assumes "\<not> needs_quotes s" "length (g @ s) \<le> field_limit" "rest \<noteq> []"
  shows "read_chars (s @ rest) (IN_FIELD, fs, g) rows = read_chars rest (IN_FIELD, fs, g @ s) rows"
  using assms
proof (induction s arbitrary: g)
  case Nil
  show ?case by simp
next
  case (Cons c s)
  from Cons.prems(1) have c: "c \<noteq> CHR 0x22" "c \<noteq> CHR '',''" "c \<noteq> CHR 0x0D" "c \<noteq> CHR 0x0A"
    and n: "\<not> needs_quotes s"
    by (simp_all add: needs_quotes_def)
  from Cons.prems have l: "length g < field_limit" and l': "length ((g @ [c]) @ s) \<le> field_limit"
    by simp_all
  have r: "s @ rest \<noteq> []" using Cons.prems(3) by simp
  show ?case
    using read_plain_char[OF c l r, of fs rows] Cons.IH[OF n l' Cons.prems(3)] by simp
qed

lemma read_field:
  assumes "length f \<le> field_limit" "rest \<noteq> []"
  shows "read_chars (quote_field f @ rest) (START_FIELD, fs, []) rows =
         read_chars rest (field_end f, fs, f) rows"
proof (cases "needs_quotes f")
  case True
  have "read_chars (quote_field f @ rest) (START_FIELD, fs, []) rows =
        read_chars (double_quotes f @ (CHR 0x22 # rest)) (IN_QUOTED_FIELD, fs, []) rows"
    using True by (simp add: quote_field_def start_field_def ends_line_def)
  also have "\<dots> = read_chars (CHR 0x22 # rest) (IN_QUOTED_FIELD, fs, f) rows"
    using read_quoted_body[of "[]" f "CHR 0x22 # rest" fs rows] assms(1) by simp
  also have "\<dots> = read_chars rest (QUOTE_IN_QUOTED_FIELD, fs, f) rows"
    using assms(2) by (simp add: ends_line_def)
  finally show ?thesis using True by (simp add: field_end_def)
next
  case False
  show ?thesis
  proof (cases f)
    case Nil
    then show ?thesis using False by (simp add: quote_field_def field_end_def)
  next
    case (Cons c s)
    from False Cons have c: "c \<noteq> CHR 0x22" "c \<noteq> CHR '',''" "c \<noteq> CHR 0x0D" "c \<noteq> CHR 0x0A"
      and n: "\<not> needs_quotes s"
      by (simp_all add: needs_quotes_def)
    have "read_chars (quote_field f @ rest) (START_FIELD, fs, []) rows =
          read_chars (s @ rest) (IN_FIELD, fs, [c]) rows"
      using False Cons c assms(2)
      by (simp add: quote_field_def start_field_def ends_line_def parse_add_char_def field_limit_def)
    also have "\<dots> = read_chars rest (IN_FIELD, fs, [c] @ s) rows"
      using read_plain_body[OF n _ assms(2), of "[c]" fs rows] assms(1) Cons by simp
    finally show ?thesis using False Cons by (simp add: field_end_def)
  qed
qed

lemma field_end_comma:
  assumes "rest \<noteq> []"
  shows "read_chars (CHR '','' # rest) (field_end f, fs, f) rows =
         read_chars rest (START_FIELD, fs @ [f], []) rows"
  using assms by (simp add: field_end_def start_field_def ends_line_def)

lemma field_end_crlf:
  "read_chars (CHR 0x0D # CHR 0x0A # rest) (field_end f, fs, f) rows =
   read_chars rest (START_RECORD, [], []) (rows @ [fs @ [f]])"
  by (simp add: field_end_def start_field_def ends_line_def)

lemma read_fields:
  assumes "row \<noteq> []" "fields_ok row"
  shows "read_chars (join_fields (map quote_field row) @ CHR 0x0D # CHR 0x0A # rest)
           (START_FIELD, fs, []) rows =
         read_chars rest (START_RECORD, [], []) (rows @ [fs @ row])"
  using assms
proof (induction row arbitrary: fs rule: join_fields.induct)
  case 1
  then show ?case by simp
next
  case (2 f)
  then have l: "length f \<le> field_limit" by (simp add: fields_ok_def)
  show ?case
    using read_field[OF l, of "CHR 0x0D # CHR 0x0A # rest" fs rows] field_end_crlf[of rest f fs rows]
    by simp
next
  case (3 f g gs)
  then have l: "length f \<le> field_limit" and ok: "fields_ok (g # gs)" by (simp_all add: fields_ok_def)
  let ?r = "join_fields (map quote_field (g # gs)) @ CHR 0x0D # CHR 0x0A # rest"
  have "read_chars (join_fields (map quote_field (f # g # gs)) @ CHR 0x0D # CHR 0x0A # rest)
          (START_FIELD, fs, []) rows =
        read_chars (quote_field f @ (CHR '','' # ?r)) (START_FIELD, fs, []) rows"
    by simp
  also have "\<dots> = read_chars (CHR '','' # ?r) (field_end f, fs, f) rows"
    using read_field[OF l, of "CHR '','' # ?r" fs rows] by simp
  also have "\<dots> = read_chars ?r (START_FIELD, fs @ [f], []) rows"
    by (rule field_end_comma) simp
  also have "\<dots> = read_chars rest (START_RECORD, [], []) (rows @ [(fs @ [f]) @ (g # gs)])"
    using "3.IH"[OF _ ok, of "fs @ [f]"] by simp
  finally show ?case by simp
qed


lemma read_from_START_RECORD:
  assumes "c \<noteq> CHR 0x0D" "c \<noteq> CHR 0x0A"
  shows "read_chars (c # cs) (START_RECORD, [], []) rows =
         read_chars (c # cs) (START_FIELD, [], []) rows"
  using assms by simp

lemma quote_field_Nil: "quote_field f = [] \<longleftrightarrow> f = []"
  by (cases f) (simp_all add: quote_field_def needs_quotes_def)

lemma quote_field_hd:
  assumes "f \<noteq> []"
  shows "\<exists>c cs. quote_field f = c # cs \<and> c \<noteq> CHR 0x0D \<and> c \<noteq> CHR 0x0A"
proof (cases "needs_quotes f")
  case True
  then show ?thesis by (simp add: quote_field_def)
next
  case False
  with assms show ?thesis by (cases f) (simp_all add: quote_field_def needs_quotes_def)
qed

lemma line_hd:
  assumes "row \<noteq> []" "row \<noteq> [[]]"
  shows "\<exists>c cs. join_fields (map quote_field row) @ CHR 0x0D # CHR 0x0A # rest = c # cs \<and>
                 c \<noteq> CHR 0x0D \<and> c \<noteq> CHR 0x0A"
proof (cases row)
  case Nil
  with assms show ?thesis by simp
next
  case (Cons f gs)
  show ?thesis
  proof (cases "f = []")
    case True
    with assms Cons obtain g hs where "gs = g # hs" by (cases gs) auto
    with True Cons show ?thesis by (simp add: quote_field_def needs_quotes_def)
  next
    case False
    from quote_field_hd[OF False] obtain c cs where q: "quote_field f = c # cs"
      and c: "c \<noteq> CHR 0x0D" "c \<noteq> CHR 0x0A" by blast
    show ?thesis using Cons q c by (cases gs) simp_all
  qed
qed

lemma read_row:
  assumes "fields_ok row"
  shows "read_chars (writerow row @ rest) (START_RECORD, [], []) rows =
         read_chars rest (START_RECORD, [], []) (rows @ [row])"
proof -
  consider (none) "row = []" | (blank) "row = [[]]" | (cells) "row \<noteq> []" "row \<noteq> [[]]"
    by blast
  then show ?thesis
  proof cases
    case none
    then show ?thesis by (simp add: writerow_def ends_line_def)
  next
    case blank
    then show ?thesis by (simp add: writerow_def ends_line_def start_field_def)
  next
    case cells
    from line_hd[OF cells, of rest] obtain c cs
      where l: "join_fields (map quote_field row) @ CHR 0x0D # CHR 0x0A # rest = c # cs"
        and c: "c \<noteq> CHR 0x0D" "c \<noteq> CHR 0x0A" by blast
    have "read_chars (writerow row @ rest) (START_RECORD, [], []) rows =
          read_chars (c # cs) (START_RECORD, [], []) rows"
      using cells(2) l by (simp add: writerow_def)
    also have "\<dots> = read_chars (c # cs) (START_FIELD, [], []) rows"
      using c by (rule read_from_START_RECORD)
    also have "\<dots> = read_chars rest (START_RECORD, [], []) (rows @ [[] @ row])"
      unfolding l[symmetric] using cells(1) assms by (rule read_fields)
    finally show ?thesis by simp
  qed
qed

lemma read_rows:
  assumes "list_all fields_ok rs"
  shows "read_chars (writerows rs @ rest) (START_RECORD, [], []) rows =
         read_chars rest (START_RECORD, [], []) (rows @ rs)"
  using assms
proof (induction rs arbitrary: rows)
  case Nil
  show ?case by (simp add: writerows_def)
next
  case (Cons r rs)
  then have r: "fields_ok r" and rs: "list_all fields_ok rs" by simp_all
  have "read_chars (writerows (r # rs) @ rest) (START_RECORD, [], []) rows =
        read_chars (writerow r @ (writerows rs @ rest)) (START_RECORD, [], []) rows"
    by (simp add: writerows_def)
  also have "\<dots> = read_chars (writerows rs @ rest) (START_RECORD, [], []) (rows @ [r])"
    using r by (rule read_row)
  also have "\<dots> = read_chars rest (START_RECORD, [], []) ((rows @ [r]) @ rs)"
    using rs by (rule Cons.IH)
  finally show ?case by simp
qed

lemma csv_reader_append:
  assumes "list_all fields_ok rs"
  shows "csv_reader (writerows rs @ rest) = read_chars rest (START_RECORD, [], []) rs"
  using read_rows[OF assms, of rest "[]"] by (simp add: csv_reader_def)

lemma csv_reader_writerows:
  assumes "list_all fields_ok rs"
  shows "csv_reader (writerows rs) = Inr rs"
  using csv_reader_append[OF assms, of "[]"] by simp


lemma writerows_single: "writerows [r] = writerow r"
  by (simp add: writerows_def)

subsection \<open>The effect of the operations on the files\<close>

lemmas io_defs = io_return_def io_raise_def io_bind_def io_then_def try_except_def input_line_def
  print_def logging_def py_float_def catch_ValueError_def input_float_def

lemma calculate_pay_files: "files (snd (calculate_pay dt m r w)) = files w"
  by (simp add: calculate_pay_def io_defs)

lemma trip_expense_trips:
  "files (snd (trip_expense D dn sd w)) ''trips.csv'' = files w ''trips.csv''"
  by (simp add: trip_expense_def io_defs Let_def log_expense_record_def write_to_csv_def
      split: list.splits sum.splits option.splits prod.splits)

lemma trip_appended_refl: "old = new \<Longrightarrow> trip_appended old new"
  by (simp add: trip_appended_def)

lemma calculate_pay_returns:
  "\<exists>p w'. calculate_pay dt m r w = (Inr p, w') \<and> files w' = files w \<and> stdin w' = stdin w"
  by (simp add: calculate_pay_def io_defs)

lemma finish_trip_trips:
  assumes "files w0 ''trips.csv'' = files w ''trips.csv''"
  shows "trip_appended (files w0 ''trips.csv'')
           (files (snd (finish_trip D tid dn dt sd ed dur miles rv w)) ''trips.csv'')"
proof -
  obtain p w1 where 1: "calculate_pay dt miles rv w = (Inr p, w1)" and f1: "files w1 = files w"
    using calculate_pay_returns by blast
  obtain r2 w2 where 2: "trip_expense D dn sd w1 = (r2, w2)" by (cases "trip_expense D dn sd w1")
  have f2: "files w2 ''trips.csv'' = files w ''trips.csv''"
    using trip_expense_trips[of D dn sd w1] 2 f1 by simp
  show ?thesis
  proof (cases r2)
    case (Inl e)
    with 1 2 f2 assms show ?thesis
      by (simp add: finish_trip_def io_bind_def trip_appended_def)
  next
    case (Inr ex)
    obtain ea ed' where ex: "ex = (ea, ed')" by (cases ex)
    let ?row = "[tid, dn, dt, isoformat D sd, isoformat D ed, format_2f dur, format_2f miles,
                 format_2f p, format_2f ea, ed']"
    have "files (snd (finish_trip D tid dn dt sd ed dur miles rv w)) ''trips.csv'' =
          Some ((case files w ''trips.csv'' of None \<Rightarrow> writerow trips_header | Some t \<Rightarrow> t) @
                writerow ?row)"
      using 1 2 Inr ex f2
      by (simp add: finish_trip_def io_defs write_to_csv_def split: option.splits)
    moreover have "length ?row = 10 \<and> ?row ! 6 = format_2f miles \<and> ?row ! 7 = format_2f p"
      by simp
    ultimately show ?thesis
      unfolding trip_appended_def assms by blast
  qed
qed

lemma log_trip_body_trips:
  "trip_appended (files w ''trips.csv'') (files (snd (log_trip_body D w)) ''trips.csv'')"
  by (simp add: log_trip_body_def io_defs Let_def trip_appended_refl finish_trip_trips
      split: list.splits option.splits sum.splits prod.splits)

lemma log_trip_trips:
  "trip_appended (files w ''trips.csv'') (files (snd (log_trip D w)) ''trips.csv'')"
proof -
  have "files (snd (log_trip D w)) = files (snd (log_trip_body D w))"
    by (simp add: log_trip_def io_defs split: prod.splits sum.splits)
  then show ?thesis using log_trip_body_trips[of w D] by simp
qed

subsection \<open>The export\<close>




lemma float_field_absent: "row k = None \<Longrightarrow> float_field row k = Inr 0"
  by (simp add: float_field_def float_of_pyval_def py_or_def py_truth_def dict_get_def)

lemma float_field_text:
  "row k = Some (PyStr s) \<Longrightarrow> s \<noteq> [] \<Longrightarrow> float_field row k = float_of_string s"
  by (simp add: float_field_def float_of_pyval_def py_or_def py_truth_def dict_get_def)






lemma sum_expenses_shift:
  "sum_expenses ds (a + x) =
     (case sum_expenses ds a of Inl e \<Rightarrow> Inl e | Inr t \<Rightarrow> Inr (t + x))"
proof (induction ds arbitrary: a)
  case Nil
  show ?case by simp
next
  case (Cons d ds)
  show ?case
    using Cons[of "a + _"] Cons[of a]
    by (simp add: add.commute add.left_commute split: sum.splits)
qed



lemma export_data_result:
  assumes "read_trip_totals decodes w = (Inr (tm, tp), w)"
    and "read_expense_total decodes w = (Inr te, w)"
  shows "export_data decodes w =
           (Inr (), w\<lparr>files := (files w)(''exports/summary.csv'' \<mapsto>
                                  writerows ([''Metric'', ''Amount''] # summary_rows tm tp te)),
                     stdout := stdout w @
                       [Print ''Data export complete. Summary saved to 'exports/summary.csv'.'',
                        Logging INFO ''Data exported successfully. Summary report generated.'']\<rparr>)"
  using assms by (simp add: export_data_def io_defs write_summary_def writerows_def)

lemma export_data_trips_error:
  assumes "read_trip_totals decodes w = (Inl e, w)"
  shows "export_data decodes w =
           (Inr (), w\<lparr>stdout := stdout w @
                       [Logging ERROR ''Unexpected error in export_data: %s'',
                        Print ''An error occurred during data export. Check the log for details.'']\<rparr>)"
  using assms by (simp add: export_data_def io_defs)


subsection \<open>Pay and appends\<close>

text \<open>
  C1. \<open>calculate_pay\<close> returns the miles times the rate per mile (one half) for the driver
  type \<^verbatim>\<open>company\<close>, the revenue times the percentage (four fifths) for \<^verbatim>\<open>owner\<close>, and 0 with a
  logged warning for every other text; for every input it returns a value and raises
  nothing. This holds for all rationals, the non-negative ones included.
\<close>

theorem calculate_pay_by_driver_type:
  "(driver_type = ''company'' \<longrightarrow>
      calculate_pay driver_type miles revenue w = (Inr (miles * PAY_RATE_PER_MILE), w)) \<and>
   (driver_type = ''owner'' \<longrightarrow>
      calculate_pay driver_type miles revenue w = (Inr (revenue * OWNER_OPERATOR_PERCENTAGE), w)) \<and>
   (driver_type \<noteq> ''company'' \<and> driver_type \<noteq> ''owner'' \<longrightarrow>
      calculate_pay driver_type miles revenue w =
        (Inr 0, w\<lparr>stdout := stdout w @
                   [Logging WARNING (''Unknown driver type '' @ [CHR 0x27] @ driver_type @
                                     [CHR 0x27] @ ''. Pay set to 0.'')]\<rparr>)) \<and>
   (\<exists>pay w'. calculate_pay driver_type miles revenue w = (Inr pay, w')) \<and>
   PAY_RATE_PER_MILE = 1 / 2 \<and> OWNER_OPERATOR_PERCENTAGE = 4 / 5"
proof -
  have "\<exists>pay w'. calculate_pay driver_type miles revenue w = (Inr pay, w')"
    by (cases "driver_type = ''company''"; cases "driver_type = ''owner''")
       (simp_all add: calculate_pay_def io_defs)
  then show ?thesis
    by (simp add: calculate_pay_def io_defs PAY_RATE_PER_MILE_def OWNER_OPERATOR_PERCENTAGE_def)
qed

theorem calculate_pay_by_driver_type_witness:
  "calculate_pay ''company'' 500 0 (console [] Map.empty) = (Inr 250, console [] Map.empty) \<and>
   calculate_pay ''owner'' 0 1000 (console [] Map.empty) = (Inr 800, console [] Map.empty) \<and>
   fst (calculate_pay ''trainee'' 500 1000 (console [] Map.empty)) = Inr 0"
  using calculate_pay_by_driver_type[of "''company''" 500 0 "console [] Map.empty"]
    calculate_pay_by_driver_type[of "''owner''" 0 1000 "console [] Map.empty"]
    calculate_pay_by_driver_type[of "''trainee''" 500 1000 "console [] Map.empty"]
  by simp









subsection \<open>Absent files and blank fields\<close>

lemma format_2f_zero: "format_2f 0 = ''0.00''"
  by (simp add: text_defs)




lemma ascii_append: "ascii (a @ b) \<longleftrightarrow> ascii a \<and> ascii b"
  by (simp add: ascii_def)





lemma row_dict_trips:
  "row_dict trips_header [c0, c1, c2, c3, c4, c5, c6, c7, c8, c9] ''Miles'' = Some (PyStr c6)"
  "row_dict trips_header [c0, c1, c2, c3, c4, c5, c6, c7, c8, c9] ''Pay'' = Some (PyStr c7)"
  by (simp_all add: row_dict_def trips_header_def)

lemma float_examples:
  "float_of_string ''10.00'' = Inr 10" "float_of_string ''abc'' = Inl ValueError"
  "float_of_string ''xyz'' = Inl ValueError" "float_of_string ''5.00'' = Inr 5"
  "float_of_string ''7.50'' = Inr (15 / 2)"
  by (simp_all add: text_defs)

lemma format_2f_examples:
  "format_2f 10 = ''10.00''" "format_2f 5 = ''5.00''" "format_2f (15 / 2) = ''7.50''"
  by (simp_all add: text_defs)



lemma ascii_Cons: "ascii (c # t) \<longleftrightarrow> \<not> digit7 c \<and> ascii t"
  by (simp add: ascii_def)

lemma ascii_Nil: "ascii []"
  by (simp add: ascii_def)

lemma ascii_double_quotes: "ascii f \<Longrightarrow> ascii (double_quotes f)"
  by (induction f) (simp_all add: double_quotes_def ascii_def)

lemma ascii_quote_field: "ascii f \<Longrightarrow> ascii (quote_field f)"
  by (simp add: quote_field_def ascii_append ascii_Cons ascii_Nil ascii_double_quotes)

lemma ascii_join_fields: "list_all ascii r \<Longrightarrow> ascii (join_fields r)"
  by (induction r rule: join_fields.induct) (simp_all add: ascii_append ascii_Cons ascii_Nil)

lemma ascii_writerow:
  assumes "list_all ascii row"
  shows "ascii (writerow row)"
proof -
  from assms have "list_all ascii (map quote_field row)"
    by (induction row) (simp_all add: ascii_quote_field)
  then have "ascii (join_fields (map quote_field row))" by (rule ascii_join_fields)
  then show ?thesis by (simp add: writerow_def ascii_append ascii_Cons ascii_Nil)
qed

lemma ascii_writerows:
  assumes "list_all (list_all ascii) rows"
  shows "ascii (writerows rows)"
  using assms
proof (induction rows)
  case Nil
  show ?case by (simp add: writerows_def ascii_Nil)
next
  case (Cons r rows)
  have "writerows (r # rows) = writerow r @ writerows rows" by (simp add: writerows_def)
  with Cons show ?case by (simp add: ascii_append ascii_writerow)
qed

lemma example_rows_ascii:
  "list_all (list_all ascii) trips_with_blank" "list_all (list_all ascii) expenses_with_blank"
  "list_all (list_all ascii) trips_half_numeric"
  by (simp_all add: trips_with_blank_def expenses_with_blank_def trips_half_numeric_def
      trips_header_def expenses_header_def ascii_def)

lemma example_rows_ok:
  "list_all fields_ok trips_with_blank" "list_all fields_ok expenses_with_blank"
  "list_all fields_ok trips_half_numeric"
  by (simp_all add: trips_with_blank_def expenses_with_blank_def trips_half_numeric_def
      trips_header_def expenses_header_def fields_ok_def field_limit_def)

lemma read_csv_writerows:
  assumes "list_all (list_all ascii) rows" "list_all fields_ok rows"
  shows "read_csv ascii (writerows rows) = Inr rows"
  using assms by (simp add: read_csv_def ascii_writerows csv_reader_writerows)


subsection \<open>Rows with a field that is not a number\<close>

lemma trips_half_numeric_totals:
  "sum_trips (DictReader trips_half_numeric) (0, 0) = Inr (10, 0)"
  by (simp add: DictReader_def trips_half_numeric_def float_field_text row_dict_trips float_examples)

text \<open>
  C2. The two additions of a trip row stand in one \<^verbatim>\<open>try\<close> block whose handler is commented
  as skipping the row. At a trips file with one row whose pay is not a number (miles 10.00)
  and one row whose miles are not a number (pay 5.00), the summary has the miles of the
  first row and no pay at all: the first row is not excluded entirely, and the parseable
  pay of the second row is not summed.
\<close>

theorem export_counts_half_a_row:
  "read_csv ascii (writerows trips_half_numeric) = Inr trips_half_numeric \<and>
   sum_trips (DictReader trips_half_numeric) (0, 0) = Inr (10, 0) \<and>
   files (snd (export_data ascii (console [] [''trips.csv'' \<mapsto> writerows trips_half_numeric])))
     ''exports/summary.csv'' =
     Some (writerows [[''Metric'', ''Amount''], [''Total Miles'', ''10.00''],
                      [''Total Pay'', ''$0.00''], [''Total Expenses'', ''$0.00'']])"
proof -
  define w where "w = console [] [''trips.csv'' \<mapsto> writerows trips_half_numeric]"
  have r: "read_csv ascii (writerows trips_half_numeric) = Inr trips_half_numeric"
    by (simp add: read_csv_writerows example_rows_ascii example_rows_ok)
  have t: "read_trip_totals ascii w = (Inr (10, 0), w)"
    by (simp add: read_trip_totals_def w_def console_def r trips_half_numeric_totals)
  have e: "read_expense_total ascii w = (Inr 0, w)"
    by (simp add: read_expense_total_def w_def console_def)
  have "files (snd (export_data ascii w)) ''exports/summary.csv'' =
     Some (writerows [[''Metric'', ''Amount''], [''Total Miles'', ''10.00''],
                      [''Total Pay'', ''$0.00''], [''Total Expenses'', ''$0.00'']])"
    unfolding export_data_result[OF t e]
    by (simp add: summary_rows_def format_2f_examples format_2f_zero)
  with r show ?thesis unfolding w_def by (simp add: trips_half_numeric_totals)
qed


end
